theory Spec2Isabelle
  imports Complex_Main
begin

section \<open>Data model (types.ts, constants.ts)\<close>

text \<open>
  A JavaScript number is modelled by the real number it denotes. The arithmetic
  of the engine is not exact: it is a parameter of the model (see \<open>Platform\<close>),
  applied wherever a result decides the control flow or the position of a
  sample.
\<close>

type_synonym Point = "real \<times> real"

text \<open>interface Stroke; the field \<open>end\<close> of the source is \<open>end_pt\<close> here.\<close>

record Stroke =
  path :: string
  start :: Point
  end_pt :: Point
  arrowRotation :: real

record LetterPathConfig =
  strokes :: "Stroke list"
  viewBox :: "real \<times> real"

record LevelData =
  letter :: string
  word :: string
  hint :: string

datatype GameState = INTRO | PLAYING | SUCCESS_ANIMATION | FINISHED

definition LEVELS :: "LevelData list" where
  "LEVELS =
    [\<lparr>letter = ''A'', word = ''Apple'', hint = ''Yummy red fruit''\<rparr>,
     \<lparr>letter = ''a'', word = ''Ant'', hint = ''Small insect''\<rparr>]"

text \<open>
  The two entries of \<open>LETTER_PATHS\<close>. A table is modelled by its own keys: a
  lookup answers \<open>None\<close> for every other key, also for the keys that a
  JavaScript object inherits (\<open>constructor\<close>, \<open>toString\<close>, ...), for which the
  code finds a value that is not a configuration. Such letters are outside the
  model.
\<close>

definition pathsA :: LetterPathConfig where
  "pathsA =
    \<lparr>strokes =
       [\<lparr>path = ''M 50 15 L 20 85'', start = (50, 15), end_pt = (20, 85), arrowRotation = 115\<rparr>,
        \<lparr>path = ''M 50 15 L 80 85'', start = (50, 15), end_pt = (80, 85), arrowRotation = 65\<rparr>,
        \<lparr>path = ''M 30 60 L 70 60'', start = (30, 60), end_pt = (70, 60), arrowRotation = 0\<rparr>],
     viewBox = (100, 100)\<rparr>"

definition paths_a :: LetterPathConfig where
  "paths_a =
    \<lparr>strokes =
       [\<lparr>path = ''M 70 45 A 20 20 0 1 0 70 75'', start = (70, 45), end_pt = (70, 75),
         arrowRotation = - 45\<rparr>,
        \<lparr>path = ''M 70 40 L 70 85'', start = (70, 40), end_pt = (70, 85), arrowRotation = 90\<rparr>],
     viewBox = (100, 100)\<rparr>"

definition LETTER_PATHS :: "string \<Rightarrow> LetterPathConfig option" where
  "LETTER_PATHS k =
    (if k = ''A'' then Some pathsA else if k = ''a'' then Some paths_a else None)"

section \<open>The browser as the component sees it\<close>

text \<open>
  What a handler reads from the DOM when it runs: the bounding rectangle of the
  canvas (the canvas fills its container, so both have the same rectangle) and
  \<open>window.devicePixelRatio\<close>.
\<close>

record Env =
  rect_left :: real
  rect_top :: real
  rect_width :: real
  rect_height :: real
  devicePixelRatio :: real

text \<open>
  The parts of the platform that are not code of the repository are parameters:
  \<open>inStroke p lw q\<close> says whether the user-space point \<open>q\<close> lies in the stroke of
  width \<open>lw\<close> traced around the path \<open>p\<close> (the geometry behind
  \<open>CanvasRenderingContext2D.isPointInStroke\<close>), \<open>ctx2d\<close> says whether
  \<open>getContext('2d')\<close> yields a context, \<open>fl x\<close> is the double that the engine
  returns for an operation (\<open>+\<close>, \<open>-\<close>, \<open>*\<close>, \<open>/\<close>, a decimal literal) whose exact
  result is \<open>x\<close>, and \<open>hypotF\<close> is \<open>Math.hypot\<close>.
\<close>

record Platform =
  inStroke :: "string \<Rightarrow> real \<Rightarrow> Point \<Rightarrow> bool"
  ctx2d :: bool
  fl :: "real \<Rightarrow> real"
  hypotF :: "real \<Rightarrow> real \<Rightarrow> real"

text \<open>
  \<open>ctx.isPointInStroke(path, X, Y)\<close> under the transform \<open>scale(sx, sy)\<close> with the
  given \<open>lineWidth\<close>: the device point is mapped back to user space; a scale
  that cannot be inverted contains no point.
\<close>

definition isPointInStroke :: "Platform \<Rightarrow> real \<times> real \<Rightarrow> real \<Rightarrow> string \<Rightarrow> Point \<Rightarrow> bool" where
  "isPointInStroke pf sc lw p q =
    (fst sc \<noteq> 0 \<and> snd sc \<noteq> 0 \<and> inStroke pf p lw (fst q / fst sc, snd q / snd sc))"

text \<open>
  The \<open>width\<close> and \<open>height\<close> attributes of a canvas element are \<open>unsigned long\<close>:
  an assigned number is truncated towards zero and reduced modulo \<open>2^32\<close>; a
  value above \<open>2^31 - 1\<close> is replaced by the default of the attribute (300 for
  the width, 150 for the height).
\<close>

definition toUnsignedLong :: "real \<Rightarrow> nat" where
  "toUnsignedLong r = nat ((if r < 0 then - \<lfloor>- r\<rfloor> else \<lfloor>r\<rfloor>) mod 2 ^ 32)"

definition canvasDim :: "nat \<Rightarrow> real \<Rightarrow> nat" where
  "canvasDim dflt r = (let n = toUnsignedLong r in if n > 2147483647 then dflt else n)"

text \<open>\<open>window.devicePixelRatio || 1\<close> and \<open>rect.width || 450\<close>: zero is falsy.\<close>

definition orElse :: "real \<Rightarrow> real \<Rightarrow> real" where
  "orElse v d = (if v = 0 then d else v)"

definition dprOf :: "Env \<Rightarrow> real" where
  "dprOf env = orElse (devicePixelRatio env) 1"

section \<open>Surfaces\<close>

text \<open>
  The ink surface is the list of paint operations applied since it was last
  cleared, together with its size and the scale of its context; its pixels are a
  function of these.
\<close>

datatype InkOp = Stamp Point real | SnapStroke string real real

record InkCanvas =
  ink_width :: nat
  ink_height :: nat
  ink_scale :: real
  ink_ops :: "InkOp list"

datatype DrawCmd =
    Track string
  | Guide string
  | StartMarker Point real nat
  | Arrow Point real real
  | InkLayer "InkOp list"

record Canvas =
  cv_width :: nat
  cv_height :: nat
  cv_cmds :: "DrawCmd list"

text \<open>\<open>document.createElement('canvas')\<close>: 300 by 150, blank, identity transform.\<close>

definition createCanvas :: InkCanvas where
  "createCanvas = \<lparr>ink_width = 300, ink_height = 150, ink_scale = 1, ink_ops = []\<rparr>"

section \<open>TracingCard: state\<close>

datatype error = TypeError

record TracingCard =
  levelData :: LevelData
  isActive :: bool
  activeStrokeIdx :: nat
  mistakes :: nat
  successTriggered :: bool
  isDrawingRef :: bool
  lastPosRef :: "Point option"
  inkCanvasRef :: "InkCanvas option"
  canvasRef :: "Canvas option"
  containerRef :: bool
  onSuccessCalls :: "bool list"

record PointerEvent =
  clientX :: real
  clientY :: real

type_synonym Table = "string \<Rightarrow> LetterPathConfig option"

definition letterConfig :: "Table \<Rightarrow> TracingCard \<Rightarrow> LetterPathConfig option" where
  "letterConfig tbl st = tbl (letter (levelData st))"

definition inkOf :: "TracingCard \<Rightarrow> InkOp list" where
  "inkOf st = (case inkCanvasRef st of None \<Rightarrow> [] | Some ic \<Rightarrow> ink_ops ic)"

section \<open>TracingCard: helpers\<close>

text \<open>The raw current point of a pointer event, in CSS pixels of the canvas:
  \<open>e.clientX - rect.left\<close>, \<open>e.clientY - rect.top\<close>.\<close>

definition rawPoint :: "Platform \<Rightarrow> Env \<Rightarrow> PointerEvent \<Rightarrow> Point" where
  "rawPoint pf env e = (fl pf (clientX e - rect_left env), fl pf (clientY e - rect_top env))"

text \<open>The previous raw point: \<open>lastPosRef.current\<close>, or the current point if there is none.\<close>

definition previousPoint :: "Platform \<Rightarrow> Env \<Rightarrow> TracingCard \<Rightarrow> PointerEvent \<Rightarrow> Point" where
  "previousPoint pf env st e =
    (case lastPosRef st of Some p \<Rightarrow> p | None \<Rightarrow> rawPoint pf env e)"

definition toPx :: "Platform \<Rightarrow> real \<Rightarrow> real \<Rightarrow> real" where
  "toPx pf v sz = fl pf (fl pf (v / 100) * sz)"

definition getPoint :: "Platform \<Rightarrow> Point \<Rightarrow> real \<Rightarrow> real \<Rightarrow> Point" where
  "getPoint pf p w h = (toPx pf (fst p) w, toPx pf (snd p) h)"

definition lerp :: "Platform \<Rightarrow> real \<Rightarrow> real \<Rightarrow> real \<Rightarrow> real" where
  "lerp pf s e t = fl pf (fl pf (s * fl pf (1 - t)) + fl pf (e * t))"

text \<open>The Euclidean length, exactly.\<close>

definition hypot :: "real \<Rightarrow> real \<Rightarrow> real" where
  "hypot a b = sqrt (a * a + b * b)"

text \<open>\<open>steps = Math.ceil(dist / 2)\<close> for the move from \<open>lastP\<close> to \<open>cur\<close>.\<close>

definition stepCount :: "Platform \<Rightarrow> Point \<Rightarrow> Point \<Rightarrow> nat" where
  "stepCount pf lastP cur =
    nat \<lceil>fl pf (hypotF pf (fl pf (fst cur - fst lastP)) (fl pf (snd cur - snd lastP)) / 2)\<rceil>"

text \<open>The sample of iteration \<open>i\<close>: \<open>t = steps === 0 ? 1 : i / steps\<close>.\<close>

definition samplePoint :: "Platform \<Rightarrow> Point \<Rightarrow> Point \<Rightarrow> nat \<Rightarrow> nat \<Rightarrow> Point" where
  "samplePoint pf lastP cur steps i =
    (let t = (if steps = 0 then 1 else fl pf (real i / real steps))
     in (lerp pf (fst lastP) (fst cur) t, lerp pf (snd lastP) (snd cur) t))"

text \<open>
  The hit test of one sample in \<open>draw\<close>: \<open>resetTransform\<close>,
  \<open>scale(w * dpr / 100, h * dpr / 100)\<close>, \<open>lineWidth = 24\<close>,
  \<open>isPointInStroke(path2d, x * dpr, y * dpr)\<close>. The numbers that are only handed
  to the canvas (these, the brush radius, the scale of the snapped stroke) are
  handed over as the exact products: what the canvas does with them is the
  platform's.
\<close>

definition isInside :: "Platform \<Rightarrow> Env \<Rightarrow> Stroke \<Rightarrow> Point \<Rightarrow> bool" where
  "isInside pf env currentStroke s =
    (let dpr = dprOf env; w = rect_width env; h = rect_height env
     in isPointInStroke pf ((w * dpr) / 100, (h * dpr) / 100) 24 (path currentStroke)
          (fst s * dpr, snd s * dpr))"

text \<open>
  The loop \<open>for (let i = 0; i <= steps; i++)\<close> of \<open>draw\<close>, from iteration \<open>i\<close>
  on; \<open>acc\<close> is the content of the ink surface.
\<close>

function drawLoop ::
  "Platform \<Rightarrow> Env \<Rightarrow> Stroke \<Rightarrow> Point \<Rightarrow> Point \<Rightarrow> nat \<Rightarrow> nat \<Rightarrow> InkOp list \<Rightarrow> InkOp list" where
  "drawLoop pf env currentStroke lastP cur steps i acc =
    (if i \<le> steps then
       (let s = samplePoint pf lastP cur steps i
        in drawLoop pf env currentStroke lastP cur steps (Suc i)
             (if isInside pf env currentStroke s
              then acc @ [Stamp s (rect_width env * 0.065)] else acc))
     else acc)"
  by pat_completeness auto
termination
  by (relation "measure (\<lambda>(pf, env, currentStroke, lastP, cur, steps, i, acc). Suc steps - i)") auto

declare drawLoop.simps [simp del]

section \<open>TracingCard: rendering and initialization\<close>

text \<open>
  \<open>renderFrame\<close>: the visible canvas is cleared and redrawn, bottom to top: the
  gray tracks of all strokes, the guides of the active stroke, the ink layer.
\<close>

definition renderFrame :: "Platform \<Rightarrow> Table \<Rightarrow> Env \<Rightarrow> TracingCard \<Rightarrow> TracingCard" where
  "renderFrame pf tbl env st =
    (case canvasRef st of
       None \<Rightarrow> st
     | Some canvas \<Rightarrow>
        (case letterConfig tbl st of
           None \<Rightarrow> st
         | Some cfg \<Rightarrow>
            if \<not> ctx2d pf then st
            else
              (let w = rect_width env; h = rect_height env;
                   tracks = map (\<lambda>stroke. Track (path stroke)) (strokes cfg);
                   guides =
                     (if activeStrokeIdx st < length (strokes cfg) then
                        (let stroke = strokes cfg ! activeStrokeIdx st
                         in [Guide (path stroke),
                             StartMarker (getPoint pf (start stroke) w h) (w * 0.06)
                               (activeStrokeIdx st + 1),
                             Arrow (getPoint pf (end_pt stroke) w h) (w * 0.05)
                               (arrowRotation stroke)])
                      else []);
                   ink = (case inkCanvasRef st of
                            None \<Rightarrow> []
                          | Some ic \<Rightarrow> [InkLayer (ink_ops ic)])
               in st\<lparr>canvasRef := Some (canvas\<lparr>cv_cmds := tracks @ guides @ ink\<rparr>)\<rparr>)))"

text \<open>
  \<open>initCanvas\<close>: runs 50 ms after mount, after every change of the active stroke
  index, and on every window resize. Assigning \<open>width\<close> or \<open>height\<close> of a canvas
  clears it and resets its context.
\<close>

definition initCanvas :: "Platform \<Rightarrow> Table \<Rightarrow> Env \<Rightarrow> TracingCard \<Rightarrow> TracingCard" where
  "initCanvas pf tbl env st =
    (case canvasRef st of
       None \<Rightarrow> st
     | Some canvas \<Rightarrow>
        if \<not> containerRef st \<or> letterConfig tbl st = None then st
        else
          (let width = orElse (rect_width env) 450;
               height = orElse (rect_height env) 600;
               dpr = dprOf env;
               pw = fl pf (width * dpr);
               ph = fl pf (height * dpr);
               canvas' = \<lparr>cv_width = canvasDim 300 pw, cv_height = canvasDim 150 ph,
                          cv_cmds = []\<rparr>;
               ink0 = (case inkCanvasRef st of None \<Rightarrow> createCanvas | Some ic \<Rightarrow> ic);
               ink1 =
                 (if real (ink_width ink0) \<noteq> pw \<or> real (ink_height ink0) \<noteq> ph
                  then \<lparr>ink_width = canvasDim 300 pw, ink_height = canvasDim 150 ph,
                        ink_scale = (if ctx2d pf then dpr else 1), ink_ops = []\<rparr>
                  else ink0)
           in renderFrame pf tbl env (st\<lparr>canvasRef := Some canvas', inkCanvasRef := Some ink1\<rparr>)))"

section \<open>TracingCard: user interaction\<close>

definition handleFullSuccess :: "TracingCard \<Rightarrow> TracingCard" where
  "handleFullSuccess st =
    st\<lparr>successTriggered := True, onSuccessCalls := onSuccessCalls st @ [mistakes st > 0]\<rparr>"

text \<open>
  State setters take effect at the next render, so every read of
  \<open>activeStrokeIdx\<close> and \<open>mistakes\<close> inside one handler sees the value the handler
  started with; refs change at once.
\<close>

definition completeStroke :: "Platform \<Rightarrow> Table \<Rightarrow> Env \<Rightarrow> TracingCard \<Rightarrow> error + TracingCard" where
  "completeStroke pf tbl env st =
    (case letterConfig tbl st of
       None \<Rightarrow> Inl TypeError
     | Some cfg \<Rightarrow>
        if activeStrokeIdx st \<ge> length (strokes cfg) then Inr st
        else
          (let st1 = st\<lparr>isDrawingRef := False, lastPosRef := None\<rparr>;
               dpr = dprOf env;
               w = (if containerRef st then orElse (rect_width env) 100 else 100);
               h = (if containerRef st then orElse (rect_height env) 100 else 100);
               stroke = strokes cfg ! activeStrokeIdx st;
               st2 =
                 (case inkCanvasRef st1 of
                    None \<Rightarrow> st1
                  | Some ic \<Rightarrow>
                     if ctx2d pf then
                       st1\<lparr>inkCanvasRef := Some (ic\<lparr>ink_ops := ink_ops ic @
                          [SnapStroke (path stroke) ((w * dpr) / 100) ((h * dpr) / 100)]\<rparr>)\<rparr>
                     else st1);
               nextIdx = activeStrokeIdx st + 1;
               st3 = st2\<lparr>activeStrokeIdx := nextIdx\<rparr>
           in Inr (if nextIdx \<ge> length (strokes cfg) then handleFullSuccess st3 else st3)))"

definition draw :: "Platform \<Rightarrow> Table \<Rightarrow> Env \<Rightarrow> TracingCard \<Rightarrow> PointerEvent \<Rightarrow> error + TracingCard" where
  "draw pf tbl env st e =
    (if \<not> isDrawingRef st \<or> \<not> isActive st \<or> successTriggered st then Inr st
     else
       (case canvasRef st of
          None \<Rightarrow> Inr st
        | Some canvas \<Rightarrow>
           (case inkCanvasRef st of
              None \<Rightarrow> Inr st
            | Some inkCanvas \<Rightarrow>
               if \<not> ctx2d pf then Inr st
               else
                 (case letterConfig tbl st of
                    None \<Rightarrow> Inl TypeError
                  | Some cfg \<Rightarrow>
                     if activeStrokeIdx st \<ge> length (strokes cfg) then Inl TypeError
                     else
                       (let cur = rawPoint pf env e;
                            w = rect_width env; h = rect_height env;
                            currentStroke = strokes cfg ! activeStrokeIdx st;
                            lastP = previousPoint pf env st e;
                            steps = stepCount pf lastP cur;
                            ops = drawLoop pf env currentStroke lastP cur steps 0
                                    (ink_ops inkCanvas);
                            st1 = st\<lparr>inkCanvasRef := Some (inkCanvas\<lparr>ink_ops := ops\<rparr>),
                                     lastPosRef := Some cur\<rparr>;
                            endPt = getPoint pf (end_pt currentStroke) w h;
                            distToEnd = hypotF pf (fl pf (fst cur - fst endPt))
                                          (fl pf (snd cur - snd endPt));
                            st2 = renderFrame pf tbl env st1
                        in if distToEnd < fl pf (w * fl pf 0.08)
                           then completeStroke pf tbl env st2
                           else Inr st2)))))"

text \<open>
  \<open>startDrawing\<close>: the guard reads \<open>letterConfig.strokes\<close> only when the first two
  disjuncts are false. \<open>setPointerCapture\<close> sits in a \<open>try\<close> and changes nothing
  the component reads.
\<close>

definition startDrawing :: "Platform \<Rightarrow> Table \<Rightarrow> Env \<Rightarrow> TracingCard \<Rightarrow> PointerEvent \<Rightarrow> error + TracingCard" where
  "startDrawing pf tbl env st e =
    (if \<not> isActive st \<or> successTriggered st then Inr st
     else
       (case letterConfig tbl st of
          None \<Rightarrow> Inl TypeError
        | Some cfg \<Rightarrow>
           if activeStrokeIdx st \<ge> length (strokes cfg) then Inr st
           else
             draw pf tbl env
               (st\<lparr>isDrawingRef := True, lastPosRef := Some (rawPoint pf env e)\<rparr>) e))"

definition stopDrawing :: "TracingCard \<Rightarrow> TracingCard" where
  "stopDrawing st = st\<lparr>isDrawingRef := False, lastPosRef := None\<rparr>"

text \<open>
  \<open>handleReset\<close>: the ink surface is cleared at once; \<open>renderFrame\<close> runs before
  the state setters take effect.
\<close>

definition handleReset :: "Platform \<Rightarrow> Table \<Rightarrow> Env \<Rightarrow> TracingCard \<Rightarrow> TracingCard" where
  "handleReset pf tbl env st =
    (let cleared =
           (case inkCanvasRef st of
              None \<Rightarrow> None
            | Some ic \<Rightarrow> Some (if ctx2d pf then ic\<lparr>ink_ops := []\<rparr> else ic));
         st1 = renderFrame pf tbl env (st\<lparr>inkCanvasRef := cleared\<rparr>)
     in st1\<lparr>mistakes := mistakes st + 1, activeStrokeIdx := 0, successTriggered := False\<rparr>)"

text \<open>The Reset button: \<open>disabled={!isActive || successTriggered}\<close>.\<close>

definition resetDisabled :: "TracingCard \<Rightarrow> bool" where
  "resetDisabled st = (\<not> isActive st \<or> successTriggered st)"

section \<open>TracingCard: life cycle\<close>

text \<open>
  The values of \<open>useState\<close> and \<open>useRef\<close> at mount, with the canvas attached. What
  the first render itself evaluates is \<open>handGuideShown\<close> below.
\<close>

definition initialState :: "LevelData \<Rightarrow> bool \<Rightarrow> TracingCard" where
  "initialState ld act =
    \<lparr>levelData = ld, isActive = act, activeStrokeIdx = 0, mistakes = 0,
     successTriggered = False, isDrawingRef = False, lastPosRef = None,
     inkCanvasRef = None,
     canvasRef = Some \<lparr>cv_width = 300, cv_height = 150, cv_cmds = []\<rparr>,
     containerRef = True, onSuccessCalls = []\<rparr>"

text \<open>Effect 1, which runs at mount and whenever \<open>levelData.letter\<close> changes.\<close>

definition resetOnLetterChange :: "Platform \<Rightarrow> TracingCard \<Rightarrow> TracingCard" where
  "resetOnLetterChange pf st =
    st\<lparr>activeStrokeIdx := 0, successTriggered := False, mistakes := 0,
       inkCanvasRef :=
         (case inkCanvasRef st of
            None \<Rightarrow> None
          | Some ic \<Rightarrow> Some (if ctx2d pf then ic\<lparr>ink_ops := []\<rparr> else ic))\<rparr>"

definition mountTracingCard :: "Platform \<Rightarrow> LevelData \<Rightarrow> bool \<Rightarrow> TracingCard" where
  "mountTracingCard pf ld act = resetOnLetterChange pf (initialState ld act)"

definition changeLetter :: "Platform \<Rightarrow> LevelData \<Rightarrow> TracingCard \<Rightarrow> TracingCard" where
  "changeLetter pf ld st = resetOnLetterChange pf (st\<lparr>levelData := ld\<rparr>)"

text \<open>
  What can happen to a mounted card. \<open>Resize\<close> stands for every run of
  \<open>initCanvas\<close> (timer or window resize), \<open>SetActive\<close> for the orchestrator
  changing the \<open>isActive\<close> prop. A click on the disabled Reset button does nothing.
\<close>

datatype Event =
    PointerDown Env PointerEvent
  | PointerMove Env PointerEvent
  | PointerUp
  | PointerLeave
  | ResetClick Env
  | Resize Env
  | SetActive bool

fun handle :: "Platform \<Rightarrow> Table \<Rightarrow> TracingCard \<Rightarrow> Event \<Rightarrow> error + TracingCard" where
  "handle pf tbl st (PointerDown env e) = startDrawing pf tbl env st e"
| "handle pf tbl st (PointerMove env e) = draw pf tbl env st e"
| "handle pf tbl st PointerUp = Inr (stopDrawing st)"
| "handle pf tbl st PointerLeave = Inr (stopDrawing st)"
| "handle pf tbl st (ResetClick env) =
     Inr (if resetDisabled st then st else handleReset pf tbl env st)"
| "handle pf tbl st (Resize env) = Inr (initCanvas pf tbl env st)"
| "handle pf tbl st (SetActive b) = Inr (st\<lparr>isActive := b\<rparr>)"

text \<open>
  \<open>run\<close> hands every event the state that the event before it has left: React
  renders the component between any two of the events.
\<close>

fun run :: "Platform \<Rightarrow> Table \<Rightarrow> TracingCard \<Rightarrow> Event list \<Rightarrow> error + TracingCard" where
  "run pf tbl st [] = Inr st"
| "run pf tbl st (ev # evs) =
     (case handle pf tbl st ev of
        Inl err \<Rightarrow> Inl err
      | Inr st' \<Rightarrow> run pf tbl st' evs)"

text \<open>
  Without a render in between it is different. A handler is a closure of the
  render that created it: the props and the \<open>useState\<close> values it reads are
  those of that render, whatever has been set since, while a ref is read when
  the handler runs. \<open>withClosure rendered cur\<close> is what a handler of the render
  with state \<open>rendered\<close> works on when the card has meanwhile become \<open>cur\<close>.
  The pointer handlers set state only to values computed from what they read.
\<close>

definition withClosure :: "TracingCard \<Rightarrow> TracingCard \<Rightarrow> TracingCard" where
  "withClosure rendered cur =
    cur\<lparr>levelData := levelData rendered, isActive := isActive rendered,
        activeStrokeIdx := activeStrokeIdx rendered, mistakes := mistakes rendered,
        successTriggered := successTriggered rendered\<rparr>"

text \<open>
  The condition under which the JSX of a render shows the hand guide:
  \<open>!successTriggered && isActive && activeStrokeIdx < letterConfig.strokes.length\<close>.
  It is evaluated by every render, the first one included.
\<close>

definition handGuideShown :: "Table \<Rightarrow> TracingCard \<Rightarrow> error + bool" where
  "handGuideShown tbl st =
    (if successTriggered st \<or> \<not> isActive st then Inr False
     else
       (case letterConfig tbl st of
          None \<Rightarrow> Inl TypeError
        | Some cfg \<Rightarrow> Inr (activeStrokeIdx st < length (strokes cfg))))"

section \<open>App: the session orchestrator\<close>

text \<open>
  The state of \<open>App\<close> that decides the rating; the deer animation and the sounds
  are left out.
\<close>

record App =
  gameState :: GameState
  currentLevelIdx :: nat
  stars :: nat
  penalties :: nat

definition initialApp :: App where
  "initialApp = \<lparr>gameState = INTRO, currentLevelIdx = 0, stars = 3, penalties = 0\<rparr>"

definition handleStartGame :: "App \<Rightarrow> App" where
  "handleStartGame app = app\<lparr>gameState := PLAYING\<rparr>"

text \<open>The local \<open>finalStars\<close> of \<open>finishGame\<close>, from the \<open>penalties\<close> it reads.\<close>

definition finalStars :: "nat \<Rightarrow> nat" where
  "finalStars p =
    (let s = 3;
         s = (if p \<ge> 1 then 2 else s);
         s = (if p \<ge> 3 then 1 else s);
         s = (if p > 5 then 0 else s)
     in s)"

text \<open>
  A function of a render closes over the state values of that render.
  \<open>rendered\<close> is the state of the render that created the running closure,
  \<open>app\<close> the state when it runs.
\<close>

definition finishGame :: "App \<Rightarrow> App \<Rightarrow> App" where
  "finishGame rendered app = app\<lparr>stars := finalStars (penalties rendered), gameState := FINISHED\<rparr>"

text \<open>\<open>handleLevelSuccess\<close> up to its first \<open>await\<close>.\<close>

definition handleLevelSuccess :: "App \<Rightarrow> bool \<Rightarrow> App" where
  "handleLevelSuccess app hadPenalty =
    (let app1 = (if hadPenalty then app\<lparr>penalties := penalties app + 1\<rparr> else app)
     in app1\<lparr>gameState := SUCCESS_ANIMATION\<rparr>)"

text \<open>
  The callback of the 3000 ms timer that \<open>handleLevelSuccess\<close> sets: it belongs to
  the render in which \<open>handleLevelSuccess\<close> was called.
\<close>

definition advanceAfterDelay :: "App \<Rightarrow> App \<Rightarrow> App" where
  "advanceAfterDelay rendered app =
    (if int (currentLevelIdx rendered) < int (length LEVELS) - 1
     then app\<lparr>currentLevelIdx := currentLevelIdx app + 1, gameState := PLAYING\<rparr>
     else finishGame rendered app)"

text \<open>One level from the success callback to the end of the timer.\<close>

definition completeLevel :: "App \<Rightarrow> bool \<Rightarrow> App" where
  "completeLevel app hadPenalty = advanceAfterDelay app (handleLevelSuccess app hadPenalty)"

text \<open>A whole session: one \<open>hadPenalty\<close> flag per level completed, in order.\<close>

definition playSession :: "bool list \<Rightarrow> App" where
  "playSession flags = foldl completeLevel (handleStartGame initialApp) flags"

section \<open>Notions used in the statements\<close>

text \<open>
  A capture is under way and \<open>draw\<close> gets past all its early returns: the pointer
  is down, the level is active, the letter is not finished, both surfaces and
  their contexts exist and a stroke is active.
\<close>

definition capturing :: "Platform \<Rightarrow> Table \<Rightarrow> TracingCard \<Rightarrow> bool" where
  "capturing pf tbl st =
    (isDrawingRef st \<and> isActive st \<and> \<not> successTriggered st \<and> canvasRef st \<noteq> None \<and>
     inkCanvasRef st \<noteq> None \<and> ctx2d pf \<and>
     (case letterConfig tbl st of
        None \<Rightarrow> False
      | Some cfg \<Rightarrow> activeStrokeIdx st < length (strokes cfg)))"

text \<open>The points the loop of \<open>draw\<close> visits, in order.\<close>

definition tested :: "Platform \<Rightarrow> Point \<Rightarrow> Point \<Rightarrow> Point list" where
  "tested pf lastP cur =
    map (samplePoint pf lastP cur (stepCount pf lastP cur)) [0..<Suc (stepCount pf lastP cur)]"

text \<open>A point of the canvas (CSS pixels) in the 0-100 space of the letter.\<close>

definition toNormalized :: "Env \<Rightarrow> Point \<Rightarrow> Point" where
  "toNormalized env s = (100 * fst s / rect_width env, 100 * snd s / rect_height env)"

text \<open>The distance from the raw point to the end point of a stroke, as \<open>draw\<close> computes it.\<close>

definition distToEnd :: "Platform \<Rightarrow> Env \<Rightarrow> Stroke \<Rightarrow> Point \<Rightarrow> real" where
  "distToEnd pf env stroke cur =
    (let endPt = getPoint pf (end_pt stroke) (rect_width env) (rect_height env)
     in hypotF pf (fl pf (fst cur - fst endPt)) (fl pf (snd cur - snd endPt)))"

text \<open>The threshold it is compared with: \<open>w * 0.08\<close>.\<close>

definition endThreshold :: "Platform \<Rightarrow> Env \<Rightarrow> real" where
  "endThreshold pf env = fl pf (rect_width env * fl pf 0.08)"

text \<open>The ink that one pointer move lays down: one brush stamp per accepted sample.\<close>

definition stamps :: "Platform \<Rightarrow> Env \<Rightarrow> Stroke \<Rightarrow> Point \<Rightarrow> Point \<Rightarrow> InkOp list" where
  "stamps pf env stroke lastP cur =
    map (\<lambda>s. Stamp s (rect_width env * 0.065))
      (filter (isInside pf env stroke) (tested pf lastP cur))"

text \<open>
  What holds of every state of a mounted card: the success flag is set exactly
  when the last stroke has been completed, and the callback has been called
  exactly then.
\<close>

definition sessionInv :: "Platform \<Rightarrow> Table \<Rightarrow> TracingCard \<Rightarrow> bool" where
  "sessionInv pf tbl st =
    ((\<not> ctx2d pf \<longrightarrow> inkOf st = []) \<and>
     (case letterConfig tbl st of
        None \<Rightarrow>
          activeStrokeIdx st = 0 \<and> \<not> successTriggered st \<and> onSuccessCalls st = [] \<and>
          \<not> isDrawingRef st \<and> inkCanvasRef st = None
      | Some cfg \<Rightarrow>
          if successTriggered st
          then activeStrokeIdx st = length (strokes cfg) \<and> strokes cfg \<noteq> [] \<and>
               onSuccessCalls st = [0 < mistakes st] \<and> \<not> isDrawingRef st
          else onSuccessCalls st = [] \<and>
               (activeStrokeIdx st < length (strokes cfg) \<or>
                (strokes cfg = [] \<and> activeStrokeIdx st = 0 \<and> \<not> isDrawingRef st))))"

text \<open>
  The two ways a pointer event can leave the session: nothing the session
  consists of changes, or the active stroke is completed.
\<close>

definition unchanged :: "TracingCard \<Rightarrow> TracingCard \<Rightarrow> bool" where
  "unchanged s s' =
    (activeStrokeIdx s' = activeStrokeIdx s \<and> mistakes s' = mistakes s \<and>
     successTriggered s' = successTriggered s \<and> onSuccessCalls s' = onSuccessCalls s)"

definition advanced :: "Table \<Rightarrow> TracingCard \<Rightarrow> TracingCard \<Rightarrow> bool" where
  "advanced tbl s s' =
    (\<not> successTriggered s \<and> activeStrokeIdx s' = activeStrokeIdx s + 1 \<and>
     (case letterConfig tbl s of
        None \<Rightarrow> False
      | Some c \<Rightarrow>
          activeStrokeIdx s < length (strokes c) \<and>
          (if activeStrokeIdx s + 1 = length (strokes c)
           then successTriggered s' \<and> onSuccessCalls s' = onSuccessCalls s @ [0 < mistakes s]
           else \<not> successTriggered s' \<and> onSuccessCalls s' = onSuccessCalls s)))"

text \<open>The physical size \<open>initCanvas\<close> computes: \<open>width * dpr\<close>, \<open>height * dpr\<close>.\<close>

definition physicalSize :: "Platform \<Rightarrow> Env \<Rightarrow> real \<times> real" where
  "physicalSize pf env =
    (fl pf (orElse (rect_width env) 450 * dprOf env),
     fl pf (orElse (rect_height env) 600 * dprOf env))"

text \<open>
  How close the arithmetic of a platform is to exact arithmetic: on operands
  and results of magnitude at most \<open>M\<close> every operation and \<open>Math.hypot\<close> are
  within \<open>eta\<close> of the exact result.
\<close>

definition accurate :: "Platform \<Rightarrow> real \<Rightarrow> real \<Rightarrow> bool" where
  "accurate pf M eta =
    (0 \<le> eta \<and>
     (\<forall>x. \<bar>x\<bar> \<le> M \<longrightarrow> \<bar>fl pf x - x\<bar> \<le> eta) \<and>
     (\<forall>a b. hypot a b \<le> M \<longrightarrow> \<bar>hypotF pf a b - hypot a b\<bar> \<le> eta))"

section \<open>Concrete inputs\<close>

text \<open>
  Rounding to the nearest number with 53 significant bits, ties to even: the
  rounding of IEEE-754 binary64 within its normal range.
\<close>

definition roundEven :: "real \<Rightarrow> int" where
  "roundEven x =
    (let f = \<lfloor>x\<rfloor>; r = x - of_int f
     in if r < 1 / 2 then f else if 1 / 2 < r then f + 1 else if even f then f else f + 1)"

definition binary64 :: "real \<Rightarrow> real" where
  "binary64 x =
    (if x = 0 then 0
     else (let e = \<lfloor>log 2 \<bar>x\<bar>\<rfloor> - 52
           in of_int (roundEven (x / 2 powr of_int e)) * 2 powr of_int e))"


text \<open>
  A 300 by 300 canvas at the origin with device pixel ratio 1, and a platform
  whose only stroke region is the one of the third stroke of the letter A, the
  horizontal segment from (30, 60) to (70, 60) with butt caps, and whose
  arithmetic is exact.
\<close>

definition env300 :: Env where
  "env300 = \<lparr>rect_left = 0, rect_top = 0, rect_width = 300, rect_height = 300,
             devicePixelRatio = 1\<rparr>"

definition barPlatform :: Platform where
  "barPlatform =
    \<lparr>inStroke = (\<lambda>p lw q. p = ''M 30 60 L 70 60'' \<and> 30 \<le> fst q \<and> fst q \<le> 70 \<and>
                               \<bar>snd q - 60\<bar> \<le> lw / 2),
     ctx2d = True, fl = (\<lambda>x. x), hypotF = hypot\<rparr>"

text \<open>The same platform with binary64 arithmetic and a correctly rounded \<open>Math.hypot\<close>.\<close>

definition doublePlatform :: Platform where
  "doublePlatform =
    barPlatform\<lparr>fl := binary64, hypotF := (\<lambda>a b. binary64 (hypot a b))\<rparr>"

text \<open>A 350 by 350 canvas whose top left corner is at (10, 20) in the client area.\<close>

definition env350 :: Env where
  "env350 = \<lparr>rect_left = 10, rect_top = 20, rect_width = 350, rect_height = 350,
             devicePixelRatio = 1\<rparr>"

text \<open>A 300 by 300 canvas at the same place.\<close>

definition env300o :: Env where
  "env300o = \<lparr>rect_left = 10, rect_top = 20, rect_width = 300, rect_height = 300,
              devicePixelRatio = 1\<rparr>"

text \<open>The distance from a point to that segment.\<close>

definition barDist :: "Point \<Rightarrow> real" where
  "barDist q =
    (if fst q < 30 then hypot (30 - fst q) (snd q - 60)
     else if fst q > 70 then hypot (fst q - 70) (snd q - 60)
     else \<bar>snd q - 60\<bar>)"

definition pointerAt :: "real \<Rightarrow> real \<Rightarrow> PointerEvent" where
  "pointerAt px py = \<lparr>clientX = px, clientY = py\<rparr>"

text \<open>
  Letter A with one reset: the first stroke is completed, the user resets, then
  completes the three strokes by pressing at their end points.
\<close>

definition traceA :: "Event list" where
  "traceA =
    [Resize env300, PointerDown env300 (pointerAt 60 255), PointerUp, ResetClick env300,
     Resize env300, PointerDown env300 (pointerAt 60 255), PointerDown env300 (pointerAt 240 255),
     PointerDown env300 (pointerAt 210 180)]"

text \<open>
  Two states of the card for the letter A after one reset: with the third
  stroke active, and after the letter has been completed.
\<close>

definition lastStrokeA :: TracingCard where
  "lastStrokeA =
    (initialState (LEVELS ! 0) True)
      \<lparr>activeStrokeIdx := 2, mistakes := 1, inkCanvasRef := Some createCanvas\<rparr>"

definition doneA :: TracingCard where
  "doneA =
    (initialState (LEVELS ! 0) True)
      \<lparr>activeStrokeIdx := 3, mistakes := 1, successTriggered := True,
       inkCanvasRef := Some createCanvas, onSuccessCalls := [True]\<rparr>"

text \<open>The same card as \<open>lastStrokeA\<close> with the two completed strokes on the ink surface.\<close>

definition inkedA :: TracingCard where
  "inkedA =
    lastStrokeA
      \<lparr>inkCanvasRef := Some
         \<lparr>ink_width = 300, ink_height = 300, ink_scale = 1,
          ink_ops = [SnapStroke ''M 50 15 L 20 85'' 3 3, SnapStroke ''M 50 15 L 80 85'' 3 3]\<rparr>\<rparr>"

text \<open>
  A 450 by 450 canvas with device pixel ratio 1, and one with device pixel
  ratio 1.25, whose physical size 562.5 is not a whole number.
\<close>

definition env450 :: Env where
  "env450 = \<lparr>rect_left = 0, rect_top = 0, rect_width = 450, rect_height = 450,
             devicePixelRatio = 1\<rparr>"

definition env450hd :: Env where
  "env450hd = \<lparr>rect_left = 0, rect_top = 0, rect_width = 450, rect_height = 450,
               devicePixelRatio = 1.25\<rparr>"

text \<open>
  The card \<open>lastStrokeA\<close> during a capture that began at the start point
  (90, 180) of the third stroke.
\<close>

definition capturingA :: TracingCard where
  "capturingA = lastStrokeA\<lparr>isDrawingRef := True, lastPosRef := Some (90, 180)\<rparr>"

text \<open>A level whose letter has no entry in \<open>LETTER_PATHS\<close>.\<close>

definition levelB :: LevelData where
  "levelB = \<lparr>letter = ''B'', word = ''Ball'', hint = ''Round toy''\<rparr>"

section \<open>Auxiliary lemmas\<close>

lemma drawLoop_eq:
  "i \<le> Suc steps \<Longrightarrow> drawLoop pf env cs lastP cur steps i acc =
    acc @ map (\<lambda>s. Stamp s (rect_width env * 0.065))
      (filter (isInside pf env cs) (map (samplePoint pf lastP cur steps) [i..<Suc steps]))"
proof (induction pf env cs lastP cur steps i acc rule: drawLoop.induct)
  case (1 pf env cs lastP cur steps i acc)
  show ?case
  proof (cases "i \<le> steps")
    case True
    then have up: "[i..<Suc steps] = i # [Suc i..<Suc steps]"
      by (simp add: upt_conv_Cons)
    from True 1 show ?thesis
      by (subst drawLoop.simps) (simp add: Let_def up del: upt_Suc)
  next
    case False
    with 1 have "i = Suc steps" by simp
    then show ?thesis by (subst drawLoop.simps) simp
  qed
qed

lemma letterConfig_upd [simp]:
  "letterConfig tbl (st\<lparr>isActive := a\<rparr>) = letterConfig tbl st"
  "letterConfig tbl (st\<lparr>activeStrokeIdx := n\<rparr>) = letterConfig tbl st"
  "letterConfig tbl (st\<lparr>mistakes := m\<rparr>) = letterConfig tbl st"
  "letterConfig tbl (st\<lparr>successTriggered := b\<rparr>) = letterConfig tbl st"
  "letterConfig tbl (st\<lparr>isDrawingRef := b\<rparr>) = letterConfig tbl st"
  "letterConfig tbl (st\<lparr>lastPosRef := lp\<rparr>) = letterConfig tbl st"
  "letterConfig tbl (st\<lparr>inkCanvasRef := ic\<rparr>) = letterConfig tbl st"
  "letterConfig tbl (st\<lparr>canvasRef := cv\<rparr>) = letterConfig tbl st"
  "letterConfig tbl (st\<lparr>containerRef := c\<rparr>) = letterConfig tbl st"
  "letterConfig tbl (st\<lparr>onSuccessCalls := l\<rparr>) = letterConfig tbl st"
  by (simp_all add: letterConfig_def)

lemma renderFrame_eq:
  "\<exists>cv. renderFrame pf tbl env st = st\<lparr>canvasRef := cv\<rparr> \<and> (cv = None \<longleftrightarrow> canvasRef st = None)"
  by (auto simp: renderFrame_def Let_def split: option.splits intro: exI[of _ "canvasRef st"])

lemma renderFrame_fields [simp]:
  "levelData (renderFrame pf tbl env st) = levelData st"
  "isActive (renderFrame pf tbl env st) = isActive st"
  "activeStrokeIdx (renderFrame pf tbl env st) = activeStrokeIdx st"
  "mistakes (renderFrame pf tbl env st) = mistakes st"
  "successTriggered (renderFrame pf tbl env st) = successTriggered st"
  "isDrawingRef (renderFrame pf tbl env st) = isDrawingRef st"
  "lastPosRef (renderFrame pf tbl env st) = lastPosRef st"
  "inkCanvasRef (renderFrame pf tbl env st) = inkCanvasRef st"
  "containerRef (renderFrame pf tbl env st) = containerRef st"
  "onSuccessCalls (renderFrame pf tbl env st) = onSuccessCalls st"
  "letterConfig tbl' (renderFrame pf tbl env st) = letterConfig tbl' st"
  "(canvasRef (renderFrame pf tbl env st) = None) = (canvasRef st = None)"
  "(\<exists>y. canvasRef (renderFrame pf tbl env st) = Some y) = (\<exists>y. canvasRef st = Some y)"
  using renderFrame_eq[of pf tbl env st] by (auto simp: letterConfig_def)

lemma inkOf_renderFrame [simp]: "inkOf (renderFrame pf tbl env st) = inkOf st"
  by (simp add: inkOf_def)

lemma completeStroke_active:
  assumes "letterConfig tbl st = Some cfg" "activeStrokeIdx st < length (strokes cfg)"
  shows "\<exists>st'. completeStroke pf tbl env st = Inr st'
     \<and> activeStrokeIdx st' = activeStrokeIdx st + 1
     \<and> \<not> isDrawingRef st' \<and> lastPosRef st' = None
     \<and> mistakes st' = mistakes st \<and> isActive st' = isActive st
     \<and> levelData st' = levelData st \<and> canvasRef st' = canvasRef st
     \<and> containerRef st' = containerRef st
     \<and> (inkCanvasRef st' = None \<longleftrightarrow> inkCanvasRef st = None)
     \<and> (\<exists>snap. inkOf st' = inkOf st @ snap \<and> (\<not> ctx2d pf \<longrightarrow> snap = []))
     \<and> (if activeStrokeIdx st + 1 = length (strokes cfg)
         then successTriggered st' \<and> onSuccessCalls st' = onSuccessCalls st @ [0 < mistakes st]
         else successTriggered st' = successTriggered st \<and> onSuccessCalls st' = onSuccessCalls st)"
  using assms
  by (auto simp: completeStroke_def Let_def handleFullSuccess_def inkOf_def split: option.splits)


lemma draw_capturing:
  assumes cap: "capturing pf tbl st" and cfg: "letterConfig tbl st = Some cfg"
  shows "\<exists>st'. draw pf tbl env st e = Inr st'
     \<and> mistakes st' = mistakes st \<and> isActive st' = isActive st
     \<and> levelData st' = levelData st \<and> containerRef st' = containerRef st
     \<and> inkCanvasRef st' \<noteq> None \<and> canvasRef st' \<noteq> None
     \<and> (if distToEnd pf env (strokes cfg ! activeStrokeIdx st) (rawPoint pf env e) < endThreshold pf env
         then activeStrokeIdx st' = activeStrokeIdx st + 1 \<and> \<not> isDrawingRef st'
           \<and> lastPosRef st' = None
           \<and> (\<exists>snap. inkOf st' = inkOf st @ stamps pf env (strokes cfg ! activeStrokeIdx st)
                 (previousPoint pf env st e) (rawPoint pf env e) @ [snap])
           \<and> (if activeStrokeIdx st + 1 = length (strokes cfg)
               then successTriggered st' \<and> onSuccessCalls st' = onSuccessCalls st @ [0 < mistakes st]
               else \<not> successTriggered st' \<and> onSuccessCalls st' = onSuccessCalls st)
         else activeStrokeIdx st' = activeStrokeIdx st \<and> isDrawingRef st'
           \<and> lastPosRef st' = Some (rawPoint pf env e)
           \<and> inkOf st' = inkOf st @ stamps pf env (strokes cfg ! activeStrokeIdx st)
                 (previousPoint pf env st e) (rawPoint pf env e)
           \<and> \<not> successTriggered st' \<and> onSuccessCalls st' = onSuccessCalls st)"
proof -
  from cap cfg obtain cv ic where
    c: "isDrawingRef st" "isActive st" "\<not> successTriggered st" "canvasRef st = Some cv"
       "inkCanvasRef st = Some ic" "ctx2d pf" "activeStrokeIdx st < length (strokes cfg)"
    by (auto simp: capturing_def)
  let ?cur = "rawPoint pf env e"
  let ?cs = "strokes cfg ! activeStrokeIdx st"
  let ?lastP = "previousPoint pf env st e"
  let ?ops = "ink_ops ic @ stamps pf env ?cs ?lastP ?cur"
  let ?st1 = "st\<lparr>inkCanvasRef := Some (ic\<lparr>ink_ops := ?ops\<rparr>), lastPosRef := Some ?cur\<rparr>"
  let ?st2 = "renderFrame pf tbl env ?st1"
  have loop: "drawLoop pf env ?cs ?lastP ?cur (stepCount pf ?lastP ?cur) 0 (ink_ops ic) = ?ops"
    by (simp add: drawLoop_eq stamps_def tested_def)
  have d: "draw pf tbl env st e =
      (if distToEnd pf env ?cs ?cur < endThreshold pf env then completeStroke pf tbl env ?st2 else Inr ?st2)"
    using c cfg loop
    by (simp add: draw_def Let_def distToEnd_def endThreshold_def)
  show ?thesis
  proof (cases "distToEnd pf env ?cs ?cur < endThreshold pf env")
    case True
    have cfg2: "letterConfig tbl ?st2 = Some cfg" using cfg by simp
    have idx2: "activeStrokeIdx ?st2 < length (strokes cfg)" using c by simp
    from completeStroke_active[OF cfg2 idx2, of pf env] obtain st' where
      s: "completeStroke pf tbl env ?st2 = Inr st'"
        "activeStrokeIdx st' = activeStrokeIdx ?st2 + 1"
        "\<not> isDrawingRef st'" "lastPosRef st' = None"
        "mistakes st' = mistakes ?st2" "isActive st' = isActive ?st2"
        "levelData st' = levelData ?st2" "canvasRef st' = canvasRef ?st2"
        "containerRef st' = containerRef ?st2"
        "(inkCanvasRef st' = None \<longleftrightarrow> inkCanvasRef ?st2 = None)"
        "(if activeStrokeIdx ?st2 + 1 = length (strokes cfg)
         then successTriggered st' \<and> onSuccessCalls st' = onSuccessCalls ?st2 @ [0 < mistakes ?st2]
         else successTriggered st' = successTriggered ?st2 \<and> onSuccessCalls st' = onSuccessCalls ?st2)"
      by (elim exE conjE) (rule that, assumption+)
    have snap: "\<exists>snap. inkOf st' = inkOf ?st2 @ [snap]"
      using s(1) c cfg by (auto simp: completeStroke_def Let_def handleFullSuccess_def inkOf_def split: if_splits)
    have ink2: "inkOf ?st2 = inkOf st @ stamps pf env ?cs ?lastP ?cur"
      using c by (simp add: inkOf_def)
    have f1: "canvasRef st' \<noteq> None" "inkCanvasRef st' \<noteq> None"
      using s(8,10) c by simp_all
    have f2: "activeStrokeIdx st' = activeStrokeIdx st + 1" "mistakes st' = mistakes st"
      "isActive st' = isActive st" "levelData st' = levelData st" "containerRef st' = containerRef st"
      using s by simp_all
    have f3: "\<exists>snap. inkOf st' = inkOf st @ stamps pf env ?cs ?lastP ?cur @ [snap]"
      using snap ink2 by simp
    have f4: "if activeStrokeIdx st + 1 = length (strokes cfg)
         then successTriggered st' \<and> onSuccessCalls st' = onSuccessCalls st @ [0 < mistakes st]
         else \<not> successTriggered st' \<and> onSuccessCalls st' = onSuccessCalls st"
      using s(11) c by (simp split: if_splits)
    have "draw pf tbl env st e = Inr st'" using d True s(1) by simp
    with True f1 f2 f3 f4 s(3,4) show ?thesis by simp
  next
    case False
    have ink2: "inkOf ?st2 = inkOf st @ stamps pf env ?cs ?lastP ?cur"
      using c by (simp add: inkOf_def)
    have cvn: "canvasRef ?st2 \<noteq> None" using c by simp
    show ?thesis using False d c ink2 cvn by simp
  qed
qed

lemma draw_not_capturing:
  assumes "\<not> capturing pf tbl st" "draw pf tbl env st e = Inr st'"
  shows "st' = st"
  using assms
  by (auto simp: draw_def capturing_def Let_def split: option.splits if_splits)


lemma initCanvas_fields [simp]:
  "levelData (initCanvas pf tbl env st) = levelData st"
  "isActive (initCanvas pf tbl env st) = isActive st"
  "activeStrokeIdx (initCanvas pf tbl env st) = activeStrokeIdx st"
  "mistakes (initCanvas pf tbl env st) = mistakes st"
  "successTriggered (initCanvas pf tbl env st) = successTriggered st"
  "isDrawingRef (initCanvas pf tbl env st) = isDrawingRef st"
  "lastPosRef (initCanvas pf tbl env st) = lastPosRef st"
  "containerRef (initCanvas pf tbl env st) = containerRef st"
  "onSuccessCalls (initCanvas pf tbl env st) = onSuccessCalls st"
  "letterConfig tbl' (initCanvas pf tbl env st) = letterConfig tbl' st"
  by (simp_all add: initCanvas_def Let_def letterConfig_def split: option.splits)

lemma initCanvas_ink:
  "inkOf (initCanvas pf tbl env st) = inkOf st \<or> inkOf (initCanvas pf tbl env st) = []"
  by (simp add: initCanvas_def Let_def inkOf_def createCanvas_def split: option.splits)

lemma initCanvas_noConfig:
  "letterConfig tbl st = None \<Longrightarrow> initCanvas pf tbl env st = st"
  by (simp add: initCanvas_def split: option.splits)

lemma handleReset_fields [simp]:
  "levelData (handleReset pf tbl env st) = levelData st"
  "isActive (handleReset pf tbl env st) = isActive st"
  "activeStrokeIdx (handleReset pf tbl env st) = 0"
  "mistakes (handleReset pf tbl env st) = mistakes st + 1"
  "successTriggered (handleReset pf tbl env st) = False"
  "isDrawingRef (handleReset pf tbl env st) = isDrawingRef st"
  "lastPosRef (handleReset pf tbl env st) = lastPosRef st"
  "containerRef (handleReset pf tbl env st) = containerRef st"
  "onSuccessCalls (handleReset pf tbl env st) = onSuccessCalls st"
  "letterConfig tbl' (handleReset pf tbl env st) = letterConfig tbl' st"
  "(inkCanvasRef (handleReset pf tbl env st) = None) = (inkCanvasRef st = None)"
  by (simp_all add: handleReset_def Let_def letterConfig_def split: option.splits)

lemma handleReset_ink:
  "inkOf (handleReset pf tbl env st) = (if ctx2d pf then [] else inkOf st)"
  by (simp add: handleReset_def Let_def inkOf_def split: option.splits)

lemma sessionInv_draw:
  assumes inv: "sessionInv pf tbl st" and d: "draw pf tbl env st e = Inr st'"
  shows "sessionInv pf tbl st' \<and> levelData st' = levelData st"
proof (cases "capturing pf tbl st")
  case False
  from draw_not_capturing[OF False d] inv show ?thesis by simp
next
  case True
  then obtain cfg where cfg: "letterConfig tbl st = Some cfg"
    and idx: "activeStrokeIdx st < length (strokes cfg)" and ns: "\<not> successTriggered st"
    and cx: "ctx2d pf"
    by (auto simp: capturing_def split: option.splits)
  from inv cfg ns have log: "onSuccessCalls st = []" by (simp add: sessionInv_def)
  from draw_capturing[OF True cfg, of env e] d
  have ld: "levelData st' = levelData st" and m: "mistakes st' = mistakes st"
    and r: "if distToEnd pf env (strokes cfg ! activeStrokeIdx st) (rawPoint pf env e) < endThreshold pf env
         then activeStrokeIdx st' = activeStrokeIdx st + 1 \<and> \<not> isDrawingRef st'
           \<and> (if activeStrokeIdx st + 1 = length (strokes cfg)
               then successTriggered st' \<and> onSuccessCalls st' = onSuccessCalls st @ [0 < mistakes st]
               else \<not> successTriggered st' \<and> onSuccessCalls st' = onSuccessCalls st)
         else activeStrokeIdx st' = activeStrokeIdx st
           \<and> \<not> successTriggered st' \<and> onSuccessCalls st' = onSuccessCalls st"
    by (auto split: if_splits)
  from ld cfg have cfg': "letterConfig tbl st' = Some cfg" by (simp add: letterConfig_def)
  from r idx log m cx cfg' have "sessionInv pf tbl st'"
    by (auto simp: sessionInv_def split: if_splits)
  with ld show ?thesis by simp
qed

lemma sessionInv_startDrawing:
  assumes inv: "sessionInv pf tbl st" and d: "startDrawing pf tbl env st e = Inr st'"
  shows "sessionInv pf tbl st' \<and> levelData st' = levelData st"
proof (cases "\<not> isActive st \<or> successTriggered st")
  case True
  with d inv show ?thesis by (auto simp: startDrawing_def)
next
  case False
  with d obtain cfg where cfg: "letterConfig tbl st = Some cfg"
    by (auto simp: startDrawing_def split: option.splits)
  show ?thesis
  proof (cases "activeStrokeIdx st \<ge> length (strokes cfg)")
    case True
    with False cfg d inv show ?thesis by (auto simp: startDrawing_def)
  next
    case ge: False
    let ?s = "st\<lparr>isDrawingRef := True, lastPosRef := Some (rawPoint pf env e)\<rparr>"
    from False cfg ge d have dd: "draw pf tbl env ?s e = Inr st'"
      by (simp add: startDrawing_def)
    from inv cfg ge False have "sessionInv pf tbl ?s"
      by (auto simp: sessionInv_def inkOf_def)
    from sessionInv_draw[OF this dd] show ?thesis by simp
  qed
qed

lemma sessionInv_handle:
  assumes inv: "sessionInv pf tbl st" and h: "handle pf tbl st ev = Inr st'"
  shows "sessionInv pf tbl st' \<and> levelData st' = levelData st"
proof (cases ev)
  case (PointerDown env e)
  with h inv show ?thesis by (simp add: sessionInv_startDrawing)
next
  case (PointerMove env e)
  with h inv show ?thesis by (simp add: sessionInv_draw)
next
  case PointerUp
  with h inv show ?thesis
    by (auto simp: stopDrawing_def sessionInv_def inkOf_def letterConfig_def split: option.splits if_splits)
next
  case PointerLeave
  with h inv show ?thesis
    by (auto simp: stopDrawing_def sessionInv_def inkOf_def letterConfig_def split: option.splits if_splits)
next
  case (ResetClick env)
  show ?thesis
  proof (cases "resetDisabled st")
    case True
    with ResetClick h inv show ?thesis by auto
  next
    case False
    with ResetClick h have st': "st' = handleReset pf tbl env st" by auto
    from False have ns: "\<not> successTriggered st" by (simp add: resetDisabled_def)
    from inv ns show ?thesis unfolding st'
      by (auto simp: sessionInv_def handleReset_ink split: option.splits)
  qed
next
  case (Resize env)
  with h have st': "st' = initCanvas pf tbl env st" by auto
  show ?thesis
  proof (cases "letterConfig tbl st")
    case None
    with inv show ?thesis unfolding st' by (simp add: initCanvas_noConfig)
  next
    case (Some cfg)
    with inv initCanvas_ink[of pf tbl env st] show ?thesis unfolding st'
      by (auto simp: sessionInv_def)
  qed
next
  case (SetActive b)
  with h inv show ?thesis
    by (auto simp: sessionInv_def inkOf_def letterConfig_def split: option.splits if_splits)
qed

lemma sessionInv_run:
  "sessionInv pf tbl st \<Longrightarrow> run pf tbl st evs = Inr st' \<Longrightarrow>
     sessionInv pf tbl st' \<and> levelData st' = levelData st"
proof (induction evs arbitrary: st)
  case Nil
  then show ?case by simp
next
  case (Cons ev evs)
  from Cons.prems(2) obtain s1 where h: "handle pf tbl st ev = Inr s1"
    and r: "run pf tbl s1 evs = Inr st'"
    by (auto split: sum.splits)
  from sessionInv_handle[OF Cons.prems(1) h] Cons.IH[OF _ r] show ?case by simp
qed

lemma sessionInv_mount: "sessionInv pf tbl (mountTracingCard pf ld act)"
  by (simp add: sessionInv_def mountTracingCard_def resetOnLetterChange_def initialState_def
      inkOf_def split: option.splits)

lemma draw_step:
  assumes d: "draw pf tbl env s e = Inr s'"
  shows "unchanged s s' \<or> advanced tbl s s'"
proof (cases "capturing pf tbl s")
  case False
  from draw_not_capturing[OF False d] show ?thesis by (simp add: unchanged_def)
next
  case True
  then obtain cfg where cfg: "letterConfig tbl s = Some cfg"
    and idx: "activeStrokeIdx s < length (strokes cfg)" and ns: "\<not> successTriggered s"
    by (auto simp: capturing_def split: option.splits)
  from draw_capturing[OF True cfg, of env e] d
  have m: "mistakes s' = mistakes s"
    and r: "if distToEnd pf env (strokes cfg ! activeStrokeIdx s) (rawPoint pf env e) < endThreshold pf env
         then activeStrokeIdx s' = activeStrokeIdx s + 1
           \<and> (if activeStrokeIdx s + 1 = length (strokes cfg)
               then successTriggered s' \<and> onSuccessCalls s' = onSuccessCalls s @ [0 < mistakes s]
               else \<not> successTriggered s' \<and> onSuccessCalls s' = onSuccessCalls s)
         else activeStrokeIdx s' = activeStrokeIdx s
           \<and> \<not> successTriggered s' \<and> onSuccessCalls s' = onSuccessCalls s"
    by (auto split: if_splits)
  from r m cfg idx ns show ?thesis
    by (auto simp: unchanged_def advanced_def split: if_splits)
qed

lemma startDrawing_step:
  assumes d: "startDrawing pf tbl env s e = Inr s'"
  shows "unchanged s s' \<or> advanced tbl s s'"
proof -
  let ?s = "s\<lparr>isDrawingRef := True, lastPosRef := Some (rawPoint pf env e)\<rparr>"
  from d have "s' = s \<or> draw pf tbl env ?s e = Inr s'"
    by (auto simp: startDrawing_def split: if_splits option.splits)
  then show ?thesis
  proof
    assume "s' = s" then show ?thesis by (simp add: unchanged_def)
  next
    assume "draw pf tbl env ?s e = Inr s'"
    from draw_step[OF this] show ?thesis
      by (auto simp: unchanged_def advanced_def split: option.splits)
  qed
qed

lemma handle_step:
  assumes h: "handle pf tbl s ev = Inr s'"
  shows "unchanged s s'
     \<or> (\<exists>env. ev = ResetClick env \<and> \<not> resetDisabled s \<and> s' = handleReset pf tbl env s)
     \<or> ((\<exists>env e. ev = PointerDown env e \<or> ev = PointerMove env e) \<and> advanced tbl s s')"
proof (cases ev)
  case (PointerDown env e)
  with h startDrawing_step[of pf tbl env s e s'] show ?thesis by auto
next
  case (PointerMove env e)
  with h draw_step[of pf tbl env s e s'] show ?thesis by auto
next
  case (ResetClick env)
  with h show ?thesis by (cases "resetDisabled s") (auto simp: unchanged_def)
qed (use h in \<open>auto simp: unchanged_def stopDrawing_def\<close>)

lemma handle_total:
  assumes inv: "sessionInv pf tbl s" and cfg: "letterConfig tbl s \<noteq> None"
  shows "\<exists>s'. handle pf tbl s ev = Inr s'"
proof (cases ev)
  case (PointerMove env e)
  from inv cfg have "\<exists>s'. draw pf tbl env s e = Inr s'"
    by (auto simp: draw_def sessionInv_def Let_def completeStroke_def split: option.splits if_splits)
  with PointerMove show ?thesis by simp
next
  case (PointerDown env e)
  let ?s = "s\<lparr>isDrawingRef := True, lastPosRef := Some (rawPoint pf env e)\<rparr>"
  from cfg have "\<exists>s'. draw pf tbl env ?s e = Inr s'" if "\<not> activeStrokeIdx s \<ge> length (strokes c)" "letterConfig tbl s = Some c" for c
    using that
    by (auto simp: draw_def Let_def completeStroke_def split: option.splits if_splits)
  with cfg have "\<exists>s'. startDrawing pf tbl env s e = Inr s'"
    by (auto simp: startDrawing_def split: option.splits)
  with PointerDown show ?thesis by simp
qed simp_all

lemma run_total:
  "sessionInv pf tbl s \<Longrightarrow> letterConfig tbl s \<noteq> None \<Longrightarrow> \<exists>s'. run pf tbl s evs = Inr s'"
proof (induction evs arbitrary: s)
  case Nil
  then show ?case by simp
next
  case (Cons ev evs)
  from handle_total[OF Cons.prems] obtain s1 where h: "handle pf tbl s ev = Inr s1" by blast
  from sessionInv_handle[OF Cons.prems(1) h] Cons.prems(2)
  have "sessionInv pf tbl s1" "letterConfig tbl s1 \<noteq> None" by (simp_all add: letterConfig_def)
  from Cons.IH[OF this] h show ?case by simp
qed


lemma run_traceA_ink:
  "\<exists>st. run barPlatform LETTER_PATHS (mountTracingCard barPlatform (LEVELS ! 0) True) traceA = Inr st
     \<and> inkOf st \<noteq> []"
  by (simp add: traceA_def mountTracingCard_def resetOnLetterChange_def initialState_def LEVELS_def
     LETTER_PATHS_def pathsA_def letterConfig_def env300_def barPlatform_def pointerAt_def startDrawing_def draw_def
     initCanvas_def renderFrame_def completeStroke_def handleFullSuccess_def handleReset_def
     resetDisabled_def stopDrawing_def rawPoint_def previousPoint_def drawLoop_eq stepCount_def
     hypot_def samplePoint_def isInside_def isPointInStroke_def getPoint_def toPx_def lerp_def
     createCanvas_def orElse_def dprOf_def toUnsignedLong_def Let_def inkOf_def)

lemma completeStroke_done:
  "letterConfig tbl s = Some c \<Longrightarrow> length (strokes c) \<le> activeStrokeIdx s \<Longrightarrow>
     completeStroke pf tbl env s = Inr s"
  by (simp add: completeStroke_def)

lemma letterConfig_mount:
  "letterConfig tbl (mountTracingCard pf ld act) = tbl (letter ld)"
  by (simp add: letterConfig_def mountTracingCard_def resetOnLetterChange_def initialState_def)

lemma run_reachable:
  assumes cfg: "tbl (letter ld) = Some cfg"
  shows "\<exists>st. run pf tbl (mountTracingCard pf ld act) evs = Inr st \<and> sessionInv pf tbl st
           \<and> letterConfig tbl st = Some cfg"
proof -
  let ?m = "mountTracingCard pf ld act"
  have c0: "letterConfig tbl ?m \<noteq> None" using cfg by (simp add: letterConfig_mount)
  from run_total[OF sessionInv_mount c0] obtain st where r: "run pf tbl ?m evs = Inr st" by blast
  from sessionInv_run[OF sessionInv_mount r] have i: "sessionInv pf tbl st" and l: "levelData st = levelData ?m"
    by simp_all
  from l cfg have "letterConfig tbl st = Some cfg"
    by (simp add: letterConfig_def mountTracingCard_def resetOnLetterChange_def initialState_def)
  with r i show ?thesis by blast
qed


lemmas evalsBase = traceA_def mountTracingCard_def resetOnLetterChange_def initialState_def LEVELS_def
     LETTER_PATHS_def pathsA_def paths_a_def letterConfig_def env300_def barPlatform_def pointerAt_def
     startDrawing_def draw_def
     initCanvas_def renderFrame_def completeStroke_def handleFullSuccess_def handleReset_def
     resetDisabled_def stopDrawing_def rawPoint_def previousPoint_def stepCount_def
     hypot_def samplePoint_def isInside_def isPointInStroke_def getPoint_def toPx_def lerp_def
     createCanvas_def orElse_def dprOf_def toUnsignedLong_def canvasDim_def Let_def lastStrokeA_def
     doneA_def
     inkedA_def env450_def env450hd_def levelB_def physicalSize_def inkOf_def capturingA_def

lemmas evals = evalsBase drawLoop_eq

lemma reachable_inv:
  assumes r: "run pf tbl (mountTracingCard pf ld act) evs = Inr st"
  shows "sessionInv pf tbl st" and "letterConfig tbl st = tbl (letter ld)"
proof -
  from sessionInv_run[OF sessionInv_mount r]
  have i: "sessionInv pf tbl st" and l: "levelData st = levelData (mountTracingCard pf ld act)"
    by simp_all
  from i show "sessionInv pf tbl st" .
  from l show "letterConfig tbl st = tbl (letter ld)"
    by (simp add: letterConfig_def mountTracingCard_def resetOnLetterChange_def initialState_def)
qed

lemma reachable_ink_cleared:
  assumes r: "run pf tbl (mountTracingCard pf ld act) evs = Inr st"
  shows "inkOf (handleReset pf tbl env st) = []" and "inkOf (changeLetter pf ld' st) = []"
proof -
  from reachable_inv(1)[OF r] have i: "\<not> ctx2d pf \<longrightarrow> inkOf st = []"
    by (simp add: sessionInv_def)
  from i show "inkOf (handleReset pf tbl env st) = []"
    by (auto simp: handleReset_ink)
  from i show "inkOf (changeLetter pf ld' st) = []"
    by (auto simp: changeLetter_def resetOnLetterChange_def inkOf_def split: option.splits)
qed


section \<open>The active stroke index\<close>

text \<open>
  C10. In every run of events on a card mounted for a letter of the table the
  active stroke index is at most the number of strokes. Mounting and reset set
  it to 0, \<open>completeStroke\<close> adds exactly 1 while a stroke is active and does
  nothing once the index has reached the number of strokes, and every event
  either keeps the index, is a reset, or is a pointer event that completes the
  active stroke.
\<close>

theorem activeStrokeIdx_bounds:
  "(tbl (letter ld) = Some cfg \<longrightarrow>
      (\<exists>st. run pf tbl (mountTracingCard pf ld act) evs = Inr st \<and>
         activeStrokeIdx st \<le> length (strokes cfg))) \<and>
   activeStrokeIdx (mountTracingCard pf ld act) = 0 \<and>
   activeStrokeIdx (handleReset pf tbl env s) = 0 \<and>
   (letterConfig tbl s = Some c \<and> activeStrokeIdx s < length (strokes c) \<longrightarrow>
      (\<exists>s'. completeStroke pf tbl env s = Inr s' \<and> activeStrokeIdx s' = activeStrokeIdx s + 1)) \<and>
   (letterConfig tbl s = Some c \<and> length (strokes c) \<le> activeStrokeIdx s \<longrightarrow>
      completeStroke pf tbl env s = Inr s) \<and>
   (handle pf tbl s ev = Inr s' \<longrightarrow>
      activeStrokeIdx s' = activeStrokeIdx s \<or>
      ((\<exists>env. ev = ResetClick env) \<and> activeStrokeIdx s' = 0) \<or>
      ((\<exists>env e. ev = PointerDown env e \<or> ev = PointerMove env e) \<and>
       activeStrokeIdx s' = activeStrokeIdx s + 1 \<and>
       (\<exists>c. letterConfig tbl s = Some c \<and> activeStrokeIdx s < length (strokes c))))"
proof -
  have p1: "tbl (letter ld) = Some cfg \<longrightarrow>
      (\<exists>st. run pf tbl (mountTracingCard pf ld act) evs = Inr st \<and>
         activeStrokeIdx st \<le> length (strokes cfg))"
  proof
    assume cfg: "tbl (letter ld) = Some cfg"
    from cfg run_reachable[of tbl ld cfg pf act evs] obtain st where
      r: "run pf tbl (mountTracingCard pf ld act) evs = Inr st" and i: "sessionInv pf tbl st"
      and l: "letterConfig tbl st = Some cfg" by blast
    from i l have "activeStrokeIdx st \<le> length (strokes cfg)"
      by (auto simp: sessionInv_def split: if_splits)
    with r show "\<exists>st. run pf tbl (mountTracingCard pf ld act) evs = Inr st \<and>
         activeStrokeIdx st \<le> length (strokes cfg)" by blast
  qed
  have p2: "activeStrokeIdx (mountTracingCard pf ld act) = 0"
    by (simp add: mountTracingCard_def resetOnLetterChange_def initialState_def)
  have p3: "activeStrokeIdx (handleReset pf tbl env s) = 0" by simp
  have p4: "letterConfig tbl s = Some c \<and> activeStrokeIdx s < length (strokes c) \<longrightarrow>
      (\<exists>s'. completeStroke pf tbl env s = Inr s' \<and> activeStrokeIdx s' = activeStrokeIdx s + 1)"
  proof
    assume "letterConfig tbl s = Some c \<and> activeStrokeIdx s < length (strokes c)"
    then have a: "letterConfig tbl s = Some c" "activeStrokeIdx s < length (strokes c)" by simp_all
    from completeStroke_active[OF a, of pf env]
    show "\<exists>s'. completeStroke pf tbl env s = Inr s' \<and> activeStrokeIdx s' = activeStrokeIdx s + 1"
      by blast
  qed
  have p5: "letterConfig tbl s = Some c \<and> length (strokes c) \<le> activeStrokeIdx s \<longrightarrow>
      completeStroke pf tbl env s = Inr s"
    by (simp add: completeStroke_done)
  have p6: "handle pf tbl s ev = Inr s' \<longrightarrow>
      activeStrokeIdx s' = activeStrokeIdx s \<or>
      ((\<exists>env. ev = ResetClick env) \<and> activeStrokeIdx s' = 0) \<or>
      ((\<exists>env e. ev = PointerDown env e \<or> ev = PointerMove env e) \<and>
       activeStrokeIdx s' = activeStrokeIdx s + 1 \<and>
       (\<exists>c. letterConfig tbl s = Some c \<and> activeStrokeIdx s < length (strokes c)))"
    using handle_step[of pf tbl s ev s']
    by (auto simp: unchanged_def advanced_def split: option.splits)
  show ?thesis by (intro conjI) (fact p1, fact p2, fact p3, fact p4, fact p5, fact p6)
qed

theorem activeStrokeIdx_bounds_witness:
  "LETTER_PATHS (letter (LEVELS ! 0)) = Some pathsA \<and>
   (\<exists>st. run barPlatform LETTER_PATHS (mountTracingCard barPlatform (LEVELS ! 0) True) traceA = Inr st \<and>
      activeStrokeIdx st \<le> 3) \<and>
   letterConfig LETTER_PATHS lastStrokeA = Some pathsA \<and>
   activeStrokeIdx lastStrokeA < length (strokes pathsA) \<and>
   (\<exists>s'. completeStroke barPlatform LETTER_PATHS env300 lastStrokeA = Inr s' \<and> activeStrokeIdx s' = 3) \<and>
   length (strokes pathsA) \<le> activeStrokeIdx doneA \<and>
   completeStroke barPlatform LETTER_PATHS env300 doneA = Inr doneA \<and>
   handle barPlatform LETTER_PATHS lastStrokeA PointerUp = Inr (stopDrawing lastStrokeA) \<and>
   activeStrokeIdx (stopDrawing lastStrokeA) = 2"
proof -
  let ?pf = barPlatform
  have cfg: "LETTER_PATHS (letter (LEVELS ! 0)) = Some pathsA"
    by (simp add: LETTER_PATHS_def LEVELS_def)
  have len: "length (strokes pathsA) = 3" by (simp add: pathsA_def)
  have lc: "letterConfig LETTER_PATHS lastStrokeA = Some pathsA"
    by (simp add: letterConfig_def lastStrokeA_def initialState_def LETTER_PATHS_def LEVELS_def)
  have lcd: "letterConfig LETTER_PATHS doneA = Some pathsA"
    by (simp add: letterConfig_def doneA_def initialState_def LETTER_PATHS_def LEVELS_def)
  have i2: "activeStrokeIdx lastStrokeA = 2" by (simp add: lastStrokeA_def initialState_def)
  have i3: "activeStrokeIdx doneA = 3" by (simp add: doneA_def initialState_def)
  have h: "handle ?pf LETTER_PATHS lastStrokeA PointerUp = Inr (stopDrawing lastStrokeA)" by simp
  note t = activeStrokeIdx_bounds[of LETTER_PATHS "LEVELS ! 0" pathsA ?pf True traceA env300 _ pathsA
      PointerUp "stopDrawing lastStrokeA"]
  from t[of lastStrokeA] cfg len
  have p1: "\<exists>st. run ?pf LETTER_PATHS (mountTracingCard ?pf (LEVELS ! 0) True) traceA = Inr st \<and>
      activeStrokeIdx st \<le> 3" by simp
  from t[of lastStrokeA] lc i2 len
  have p4: "\<exists>s'. completeStroke ?pf LETTER_PATHS env300 lastStrokeA = Inr s' \<and> activeStrokeIdx s' = 3"
    by simp
  from t[of doneA] lcd i3 len
  have p5: "completeStroke ?pf LETTER_PATHS env300 doneA = Inr doneA" by simp
  from t[of lastStrokeA] h i2
  have p6: "activeStrokeIdx (stopDrawing lastStrokeA) = 2" by (simp add: stopDrawing_def)
  from cfg p1 lc i2 len p4 i3 p5 h p6 show ?thesis by simp
qed

section \<open>Reset\<close>



section \<open>A fresh session\<close>

text \<open>
  C7. A card is mounted for every level (\<open>App\<close> keys the card by the letter, and
  the letters of the levels are distinct), and the mounted card starts with
  active stroke index 0, mistake count 0, \<open>successTriggered\<close> false and no ink.
  When the letter of a mounted card changes, Effect 1 puts the session back
  into that state and clears the ink surface.
\<close>

theorem fresh_session:
  "activeStrokeIdx (mountTracingCard pf ld act) = 0 \<and>
   mistakes (mountTracingCard pf ld act) = 0 \<and>
   \<not> successTriggered (mountTracingCard pf ld act) \<and>
   inkOf (mountTracingCard pf ld act) = [] \<and>
   activeStrokeIdx (changeLetter pf ld' s) = 0 \<and>
   mistakes (changeLetter pf ld' s) = 0 \<and>
   \<not> successTriggered (changeLetter pf ld' s) \<and>
   (ctx2d pf \<longrightarrow> inkOf (changeLetter pf ld' s) = []) \<and>
   (run pf tbl (mountTracingCard pf ld act) evs = Inr st \<longrightarrow> inkOf (changeLetter pf ld' st) = []) \<and>
   distinct (map letter LEVELS)"
proof -
  have p8: "ctx2d pf \<longrightarrow> inkOf (changeLetter pf ld' s) = []"
    by (simp add: changeLetter_def resetOnLetterChange_def inkOf_def split: option.splits)
  have p9: "run pf tbl (mountTracingCard pf ld act) evs = Inr st \<longrightarrow> inkOf (changeLetter pf ld' st) = []"
    using reachable_ink_cleared(2)[of pf tbl ld act evs st ld'] by blast
  have p10: "distinct (map letter LEVELS)" by (simp add: LEVELS_def)
  show ?thesis using p8 p9 p10
    by (simp add: mountTracingCard_def changeLetter_def resetOnLetterChange_def initialState_def
        inkOf_def)
qed

theorem fresh_session_witness:
  "ctx2d barPlatform \<and> inkOf inkedA \<noteq> [] \<and> inkOf (changeLetter barPlatform (LEVELS ! 1) inkedA) = [] \<and>
   (\<exists>st. run barPlatform LETTER_PATHS (mountTracingCard barPlatform (LEVELS ! 0) True) traceA = Inr st \<and>
      inkOf st \<noteq> [] \<and> inkOf (changeLetter barPlatform (LEVELS ! 1) st) = [])"
proof -
  let ?pf = barPlatform
  have cx: "ctx2d ?pf" by (simp add: barPlatform_def)
  have ink: "inkOf inkedA \<noteq> []"
    by (simp add: inkedA_def inkOf_def lastStrokeA_def initialState_def)
  from run_traceA_ink obtain st0 where
    r0: "run ?pf LETTER_PATHS (mountTracingCard ?pf (LEVELS ! 0) True) traceA = Inr st0"
    and i0: "inkOf st0 \<noteq> []" by blast
  note t = fresh_session[of ?pf "LEVELS ! 0" True "LEVELS ! 1" inkedA LETTER_PATHS traceA st0]
  from t cx have p1: "inkOf (changeLetter ?pf (LEVELS ! 1) inkedA) = []" by blast
  from t r0 have p2: "inkOf (changeLetter ?pf (LEVELS ! 1) st0) = []" by blast
  from cx ink p1 r0 i0 p2 show ?thesis by auto
qed

section \<open>A letter without geometry\<close>

text \<open>
  C6. The specification asks that no handler raises for a letter that has no
  entry in the table. For such a letter \<open>renderFrame\<close> and \<open>initCanvas\<close> return early, but a
  pointer-down on an active card reads \<open>letterConfig.strokes\<close> and raises a
  \<open>TypeError\<close>.
\<close>

theorem unknown_letter_pointer_down_raises:
  "LETTER_PATHS (letter levelB) = None \<and>
   handle pf LETTER_PATHS (mountTracingCard pf levelB True) (PointerDown env e) = Inl TypeError"
  by (simp add: LETTER_PATHS_def levelB_def mountTracingCard_def resetOnLetterChange_def
      initialState_def startDrawing_def letterConfig_def)

text \<open>
  The markup of the same card reads \<open>letterConfig.strokes.length\<close> to decide
  whether to show the hand guide, so rendering it raises as well.
\<close>

lemma unknown_letter_render_raises:
  "handGuideShown LETTER_PATHS (mountTracingCard pf levelB True) = Inl TypeError"
  by (simp add: handGuideShown_def LETTER_PATHS_def levelB_def mountTracingCard_def
      resetOnLetterChange_def initialState_def letterConfig_def)

section \<open>The star rating\<close>

lemma finalStars_step:
  "finalStars p = (if p = 0 then 3 else if p \<le> 2 then 2 else if p \<le> 5 then 1 else 0)"
  by (simp add: finalStars_def Let_def)

text \<open>
  C9. The rating is meant to be the step function \<open>finalStars\<close> of all
  penalties of the session. \<open>finishGame\<close> runs in the closure of the render in
  which the last level was completed, so it reads the penalties counted before
  that level: with two levels the rating depends on the first level only, and a
  session with one penalty, on the last level, is rated 3 stars instead of 2.
\<close>

theorem last_level_penalty_not_rated:
  "gameState (playSession [a, b]) = FINISHED \<and>
   penalties (playSession [a, b]) = (if a then 1 else 0) + (if b then 1 else 0) \<and>
   stars (playSession [a, b]) = finalStars (if a then 1 else 0) \<and>
   penalties (playSession [False, True]) = 1 \<and> finalStars 1 = 2 \<and>
   stars (playSession [False, True]) = 3"
  by (simp add: playSession_def completeLevel_def advanceAfterDelay_def handleLevelSuccess_def
      finishGame_def handleStartGame_def initialApp_def LEVELS_def finalStars_def Let_def)

section \<open>Hit testing\<close>

lemma move_ink:
  assumes cap: "capturing pf tbl s" and cfg: "letterConfig tbl s = Some cfg"
  shows "\<exists>s' snap. handle pf tbl s (PointerMove env e) = Inr s' \<and> length snap \<le> 1 \<and>
     inkOf s' = inkOf s @ stamps pf env (strokes cfg ! activeStrokeIdx s)
                  (previousPoint pf env s e) (rawPoint pf env e) @ snap"
proof -
  from draw_capturing[OF cap cfg, of env e] obtain s' where
    d: "draw pf tbl env s e = Inr s'"
    and r: "if distToEnd pf env (strokes cfg ! activeStrokeIdx s) (rawPoint pf env e) < endThreshold pf env
         then (\<exists>snap. inkOf s' = inkOf s @ stamps pf env (strokes cfg ! activeStrokeIdx s)
                 (previousPoint pf env s e) (rawPoint pf env e) @ [snap])
         else inkOf s' = inkOf s @ stamps pf env (strokes cfg ! activeStrokeIdx s)
                 (previousPoint pf env s e) (rawPoint pf env e)"
    by (auto split: if_splits)
  show ?thesis
  proof (cases "distToEnd pf env (strokes cfg ! activeStrokeIdx s) (rawPoint pf env e) < endThreshold pf env")
    case True
    with r obtain x where "inkOf s' = inkOf s @ stamps pf env (strokes cfg ! activeStrokeIdx s)
                 (previousPoint pf env s e) (rawPoint pf env e) @ [x]" by auto
    with d show ?thesis by (intro exI[of _ s'] exI[of _ "[x]"]) simp
  next
    case False
    with r have "inkOf s' = inkOf s @ stamps pf env (strokes cfg ! activeStrokeIdx s)
                 (previousPoint pf env s e) (rawPoint pf env e) @ []" by simp
    with d show ?thesis by (intro exI[of _ s'] exI[of _ "[]"]) simp
  qed
qed

lemma hypot_nonneg: "0 \<le> hypot a b" by (simp add: hypot_def)

lemma hypot_zero: "hypot a b = 0 \<Longrightarrow> a = 0 \<and> b = 0"
proof -
  assume "hypot a b = 0"
  then have "a * a + b * b = 0" by (simp add: hypot_def)
  then show ?thesis by simp
qed


lemma isInside_normalized:
  "rect_width env \<noteq> 0 \<Longrightarrow> rect_height env \<noteq> 0 \<Longrightarrow>
     isInside pf env stroke q = inStroke pf (path stroke) 24 (toNormalized env q)"
proof -
  assume w: "rect_width env \<noteq> 0" and h: "rect_height env \<noteq> 0"
  have d: "dprOf env \<noteq> 0" by (simp add: dprOf_def orElse_def)
  have a: "fst q * dprOf env / (rect_width env * dprOf env / 100) = 100 * fst q / rect_width env"
    using w d by (simp add: field_simps)
  have b: "snd q * dprOf env / (rect_height env * dprOf env / 100) = 100 * snd q / rect_height env"
    using h d by (simp add: field_simps)
  show ?thesis using w h d
    by (simp add: isInside_def isPointInStroke_def toNormalized_def Let_def mult.commute)
qed

lemma barDist_on_path: "barDist u = 0 \<Longrightarrow> inStroke barPlatform ''M 30 60 L 70 60'' 24 u"
proof -
  assume z: "barDist u = 0"
  have "\<not> fst u < 30"
  proof
    assume "fst u < 30"
    with z have "hypot (30 - fst u) (snd u - 60) = 0" by (simp add: barDist_def)
    from hypot_zero[OF this] \<open>fst u < 30\<close> show False by simp
  qed
  moreover have "\<not> fst u > 70"
  proof
    assume "fst u > 70"
    with z have "hypot (fst u - 70) (snd u - 60) = 0" by (simp add: barDist_def)
    from hypot_zero[OF this] \<open>fst u > 70\<close> show False by simp
  qed
  ultimately show ?thesis using z by (simp add: barDist_def barPlatform_def)
qed

lemma barDist_far: "12 < barDist u \<Longrightarrow> \<not> inStroke barPlatform ''M 30 60 L 70 60'' 24 u"
  by (auto simp: barDist_def barPlatform_def)

text \<open>
  C2. The hit test of a sample asks the platform whether the sample, taken to
  the 0-100 space of the letter, lies in the stroke of width 24 around the path
  of the stroke it is given, and a pointer move during a capture gives it the
  active stroke: the ink of the move is one stamp per sample that the active
  stroke's test accepts, so the paths of the other strokes play no part. For
  any distance \<open>pathDist\<close> to the path such that the platform's stroke region of
  width 24 contains the points at distance 0 and no point farther than 12: a
  sample on the path is accepted and a sample farther than 12 from it is
  rejected. Distances are in units of the 0-100 space, where the code sets the
  line width; in CSS pixels 12 units are 0.12 times the width of the canvas.
\<close>

theorem hit_test_active_stroke_only:
  "(rect_width env \<noteq> 0 \<and> rect_height env \<noteq> 0 \<longrightarrow>
      isInside pf env stroke q = inStroke pf (path stroke) 24 (toNormalized env q)) \<and>
   (capturing pf tbl s \<and> letterConfig tbl s = Some cfg \<longrightarrow>
      (\<exists>s' snap. handle pf tbl s (PointerMove env e) = Inr s' \<and> length snap \<le> 1 \<and>
         inkOf s' = inkOf s @
           map (\<lambda>q. Stamp q (rect_width env * 0.065))
             (filter (isInside pf env (strokes cfg ! activeStrokeIdx s))
                (tested pf (previousPoint pf env s e) (rawPoint pf env e))) @ snap)) \<and>
   (rect_width env \<noteq> 0 \<and> rect_height env \<noteq> 0 \<and>
    (\<forall>u. (pathDist :: Point \<Rightarrow> real) u = 0 \<longrightarrow> inStroke pf (path stroke) 24 u) \<and>
    (\<forall>u. 12 < pathDist u \<longrightarrow> \<not> inStroke pf (path stroke) 24 u) \<longrightarrow>
      (pathDist (toNormalized env q) = 0 \<longrightarrow> isInside pf env stroke q) \<and>
      (12 < pathDist (toNormalized env q) \<longrightarrow> \<not> isInside pf env stroke q))"
proof -
  have p1: "rect_width env \<noteq> 0 \<and> rect_height env \<noteq> 0 \<longrightarrow>
      isInside pf env stroke q = inStroke pf (path stroke) 24 (toNormalized env q)"
    by (simp add: isInside_normalized)
  have p2: "capturing pf tbl s \<and> letterConfig tbl s = Some cfg \<longrightarrow>
      (\<exists>s' snap. handle pf tbl s (PointerMove env e) = Inr s' \<and> length snap \<le> 1 \<and>
         inkOf s' = inkOf s @
           map (\<lambda>q. Stamp q (rect_width env * 0.065))
             (filter (isInside pf env (strokes cfg ! activeStrokeIdx s))
                (tested pf (previousPoint pf env s e) (rawPoint pf env e))) @ snap)"
    using move_ink[of pf tbl s cfg env e] by (simp add: stamps_def)
  have p3: "rect_width env \<noteq> 0 \<and> rect_height env \<noteq> 0 \<and>
    (\<forall>u. (pathDist :: Point \<Rightarrow> real) u = 0 \<longrightarrow> inStroke pf (path stroke) 24 u) \<and>
    (\<forall>u. 12 < pathDist u \<longrightarrow> \<not> inStroke pf (path stroke) 24 u) \<longrightarrow>
      (pathDist (toNormalized env q) = 0 \<longrightarrow> isInside pf env stroke q) \<and>
      (12 < pathDist (toNormalized env q) \<longrightarrow> \<not> isInside pf env stroke q)"
    using isInside_normalized[of env pf stroke q] by blast
  show ?thesis by (intro conjI) (fact p1, fact p2, fact p3)
qed

theorem hit_test_active_stroke_only_witness:
  "rect_width env300 \<noteq> 0 \<and> rect_height env300 \<noteq> 0 \<and>
   path (strokes pathsA ! 2) = ''M 30 60 L 70 60'' \<and>
   barDist (toNormalized env300 (150, 180)) = 0 \<and>
   isInside barPlatform env300 (strokes pathsA ! 2) (150, 180) \<and>
   12 < barDist (toNormalized env300 (150, 217)) \<and>
   \<not> isInside barPlatform env300 (strokes pathsA ! 2) (150, 217) \<and>
   toNormalized env300 (150, 45) = start (strokes pathsA ! 0) \<and>
   \<not> isInside barPlatform env300 (strokes pathsA ! 2) (150, 45) \<and>
   capturing barPlatform LETTER_PATHS capturingA \<and>
   (\<exists>s' snap. handle barPlatform LETTER_PATHS capturingA (PointerMove env300 (pointerAt 90 184)) = Inr s' \<and>
      length snap \<le> 1 \<and>
      inkOf s' = inkOf capturingA @
        map (\<lambda>q. Stamp q (rect_width env300 * 0.065))
          (filter (isInside barPlatform env300 (strokes pathsA ! activeStrokeIdx capturingA))
             (tested barPlatform (previousPoint barPlatform env300 capturingA (pointerAt 90 184))
                (rawPoint barPlatform env300 (pointerAt 90 184)))) @ snap)"
proof -
  let ?st = "strokes pathsA ! 2"
  have wh: "rect_width env300 \<noteq> 0" "rect_height env300 \<noteq> 0" by (simp_all add: env300_def)
  have pth: "path ?st = ''M 30 60 L 70 60''" by (simp add: pathsA_def)
  have on: "\<forall>u. barDist u = 0 \<longrightarrow> inStroke barPlatform (path ?st) 24 u"
    unfolding pth by (simp add: barDist_on_path)
  have far: "\<forall>u. 12 < barDist u \<longrightarrow> \<not> inStroke barPlatform (path ?st) 24 u"
    unfolding pth by (simp add: barDist_far)
  have n1: "barDist (toNormalized env300 (150, 180)) = 0"
    by (simp add: toNormalized_def env300_def barDist_def)
  have n2: "12 < barDist (toNormalized env300 (150, 217))"
    by (simp add: toNormalized_def env300_def barDist_def)
  have n3: "toNormalized env300 (150, 45) = start (strokes pathsA ! 0)"
    by (simp add: toNormalized_def env300_def pathsA_def)
  have n3': "12 < barDist (toNormalized env300 (150, 45))"
    by (simp add: toNormalized_def env300_def barDist_def)
  have cap: "capturing barPlatform LETTER_PATHS capturingA"
    by (simp add: capturing_def capturingA_def lastStrokeA_def initialState_def barPlatform_def
        letterConfig_def LETTER_PATHS_def LEVELS_def pathsA_def)
  have lc: "letterConfig LETTER_PATHS capturingA = Some pathsA"
    by (simp add: capturingA_def lastStrokeA_def initialState_def letterConfig_def LETTER_PATHS_def
        LEVELS_def)
  note th = hit_test_active_stroke_only[of env300 barPlatform ?st _ LETTER_PATHS capturingA pathsA
      "pointerAt 90 184" barDist]
  from th[of "(150, 180)"] wh on far n1
  have a1: "isInside barPlatform env300 ?st (150, 180)" by blast
  from th[of "(150, 217)"] wh on far n2
  have a2: "\<not> isInside barPlatform env300 ?st (150, 217)" by blast
  from th[of "(150, 45)"] wh on far n3'
  have a3: "\<not> isInside barPlatform env300 ?st (150, 45)" by blast
  from th[of "(150, 180)"] cap lc
  have mv: "\<exists>s' snap. handle barPlatform LETTER_PATHS capturingA (PointerMove env300 (pointerAt 90 184)) = Inr s' \<and>
      length snap \<le> 1 \<and>
      inkOf s' = inkOf capturingA @
        map (\<lambda>q. Stamp q (rect_width env300 * 0.065))
          (filter (isInside barPlatform env300 (strokes pathsA ! activeStrokeIdx capturingA))
             (tested barPlatform (previousPoint barPlatform env300 capturingA (pointerAt 90 184))
                (rawPoint barPlatform env300 (pointerAt 90 184)))) @ snap"
    by blast
  from wh pth n1 a1 n2 a2 n3 a3 cap mv show ?thesis by (intro conjI)
qed

section \<open>The success callback\<close>

text \<open>
  When the component renders between any two events, which is how \<open>run\<close>
  feeds them, \<open>onSuccess\<close> has been called exactly once if the last stroke
  has been completed and not at all otherwise; the one call passes
  \<open>mistakes > 0\<close>. The step that completes the last stroke is the one that
  makes the call, with the mistake count of that moment. Once
  \<open>successTriggered\<close> is set in the state a handler reads, no event adds a
  call, and \<open>completeStroke\<close> on a finished letter does nothing.
\<close>

lemma onSuccess_once_when_rendered_between_events:
  "(tbl (letter ld) = Some cfg \<longrightarrow>
      (\<exists>st. run pf tbl (mountTracingCard pf ld act) evs = Inr st \<and>
         (if activeStrokeIdx st = length (strokes cfg) \<and> strokes cfg \<noteq> []
          then successTriggered st \<and> onSuccessCalls st = [0 < mistakes st]
          else \<not> successTriggered st \<and> onSuccessCalls st = []))) \<and>
   (handle pf tbl s ev = Inr s' \<and> letterConfig tbl s = Some c \<longrightarrow>
      (if activeStrokeIdx s < length (strokes c) \<and> activeStrokeIdx s' = length (strokes c)
       then successTriggered s' \<and> onSuccessCalls s' = onSuccessCalls s @ [0 < mistakes s]
       else onSuccessCalls s' = onSuccessCalls s)) \<and>
   (successTriggered s \<and> handle pf tbl s ev = Inr s' \<longrightarrow>
      successTriggered s' \<and> onSuccessCalls s' = onSuccessCalls s) \<and>
   (letterConfig tbl s = Some c \<and> length (strokes c) \<le> activeStrokeIdx s \<longrightarrow>
      completeStroke pf tbl env s = Inr s)"
proof -
  have p1: "tbl (letter ld) = Some cfg \<longrightarrow>
      (\<exists>st. run pf tbl (mountTracingCard pf ld act) evs = Inr st \<and>
         (if activeStrokeIdx st = length (strokes cfg) \<and> strokes cfg \<noteq> []
          then successTriggered st \<and> onSuccessCalls st = [0 < mistakes st]
          else \<not> successTriggered st \<and> onSuccessCalls st = []))"
  proof
    assume cfg: "tbl (letter ld) = Some cfg"
    from cfg run_reachable[of tbl ld cfg pf act evs] obtain st where
      r: "run pf tbl (mountTracingCard pf ld act) evs = Inr st" and i: "sessionInv pf tbl st"
      and l: "letterConfig tbl st = Some cfg" by blast
    from i l have "if activeStrokeIdx st = length (strokes cfg) \<and> strokes cfg \<noteq> []
          then successTriggered st \<and> onSuccessCalls st = [0 < mistakes st]
          else \<not> successTriggered st \<and> onSuccessCalls st = []"
      by (auto simp: sessionInv_def split: if_splits)
    with r show "\<exists>st. run pf tbl (mountTracingCard pf ld act) evs = Inr st \<and>
         (if activeStrokeIdx st = length (strokes cfg) \<and> strokes cfg \<noteq> []
          then successTriggered st \<and> onSuccessCalls st = [0 < mistakes st]
          else \<not> successTriggered st \<and> onSuccessCalls st = [])" by blast
  qed
  have p2: "handle pf tbl s ev = Inr s' \<and> letterConfig tbl s = Some c \<longrightarrow>
      (if activeStrokeIdx s < length (strokes c) \<and> activeStrokeIdx s' = length (strokes c)
       then successTriggered s' \<and> onSuccessCalls s' = onSuccessCalls s @ [0 < mistakes s]
       else onSuccessCalls s' = onSuccessCalls s)"
    using handle_step[of pf tbl s ev s']
    by (auto simp: unchanged_def advanced_def)
  have p3: "successTriggered s \<and> handle pf tbl s ev = Inr s' \<longrightarrow>
      successTriggered s' \<and> onSuccessCalls s' = onSuccessCalls s"
    using handle_step[of pf tbl s ev s']
    by (auto simp: unchanged_def advanced_def resetDisabled_def)
  have p4: "letterConfig tbl s = Some c \<and> length (strokes c) \<le> activeStrokeIdx s \<longrightarrow>
      completeStroke pf tbl env s = Inr s"
    by (simp add: completeStroke_done)
  show ?thesis by (intro conjI) (fact p1, fact p2, fact p3, fact p4)
qed

text \<open>
  C1. \<open>onSuccess\<close> can be called twice for one letter. The handlers of a
  render read \<open>activeStrokeIdx\<close> and \<open>successTriggered\<close> as that render saw
  them, and the refs as they are now. During a capture on the last stroke of
  the letter A, after one reset, a pointer move that reaches the end point
  completes the stroke, sets \<open>successTriggered\<close> and calls \<open>onSuccess(true)\<close>.
  A pointer-down near the end point that is handled before the component has
  rendered again still sees the third stroke active and no success:
  \<open>startDrawing\<close> starts a capture again, \<open>draw\<close> completes the stroke a second
  time, and \<open>onSuccess(true)\<close> is called a second time.
\<close>

theorem onSuccess_twice_before_rerender:
  "\<exists>s1 s2.
     handle barPlatform LETTER_PATHS capturingA (PointerMove env300o (pointerAt 220 200)) = Inr s1 \<and>
     activeStrokeIdx s1 = 3 \<and> successTriggered s1 \<and> \<not> isDrawingRef s1 \<and>
     onSuccessCalls s1 = [True] \<and>
     handle barPlatform LETTER_PATHS (withClosure capturingA s1)
       (PointerDown env300o (pointerAt 220 200)) = Inr s2 \<and>
     onSuccessCalls s2 = [True, True]"
  by (simp add: evals env300o_def withClosure_def)

section \<open>Re-initialization of the surfaces\<close>

text \<open>
  What \<open>initCanvas\<close> does on a card that has an ink surface: if the products
  \<open>width * dpr\<close> and \<open>height * dpr\<close> equal the stored size of the ink surface,
  the ink surface is left exactly as it was, ink included; if one of them
  differs and the card is mounted with letter geometry, the ink surface gets
  the whole-number size the canvas makes of the products, a fresh context and
  no ink. A card that has no ink surface yet has no ink afterwards either.
\<close>

lemma initCanvas_compares_sizes:
  "(inkCanvasRef s = Some ic \<and>
    real (ink_width ic) = fst (physicalSize pf env) \<and>
    real (ink_height ic) = snd (physicalSize pf env) \<longrightarrow>
      inkCanvasRef (initCanvas pf tbl env s) = Some ic) \<and>
   (canvasRef s = Some cv \<and> containerRef s \<and> letterConfig tbl s \<noteq> None \<and>
    inkCanvasRef s = Some ic \<and>
    (real (ink_width ic) \<noteq> fst (physicalSize pf env) \<or>
     real (ink_height ic) \<noteq> snd (physicalSize pf env)) \<longrightarrow>
      inkCanvasRef (initCanvas pf tbl env s) =
        Some \<lparr>ink_width = canvasDim 300 (fst (physicalSize pf env)),
              ink_height = canvasDim 150 (snd (physicalSize pf env)),
              ink_scale = (if ctx2d pf then dprOf env else 1), ink_ops = []\<rparr>) \<and>
   (inkCanvasRef s = None \<longrightarrow> inkOf (initCanvas pf tbl env s) = [])"
  by (auto simp: initCanvas_def physicalSize_def Let_def inkOf_def createCanvas_def
      split: option.splits)

text \<open>
  C5. A re-initialization that leaves the physical size of the ink surface
  unchanged can clear the ink. The size of a canvas is a whole number, and
  \<open>initCanvas\<close> compares it with the product \<open>width * dpr\<close> itself. For a
  450 by 450 container at device pixel ratio 1.25 the product is 562.5, and the
  ink surface is 562 by 562. After the first stroke of the letter A has been
  completed there is ink on it; a second \<open>initCanvas\<close> with the same rectangle
  and the same ratio finds 562 different from 562.5, and gives the ink surface
  the size 562 by 562 again and no ink.
\<close>

theorem unchanged_fractional_size_clears_ink:
  "physicalSize barPlatform env450hd = (562.5, 562.5) \<and>
   canvasDim 300 562.5 = 562 \<and> canvasDim 150 562.5 = 562 \<and>
   (\<exists>st ic.
      run barPlatform LETTER_PATHS (mountTracingCard barPlatform (LEVELS ! 0) True)
        [Resize env450hd, PointerDown env450hd (pointerAt 90 382.5)] = Inr st \<and>
      activeStrokeIdx st = 1 \<and>
      inkCanvasRef st = Some ic \<and> ink_width ic = 562 \<and> ink_height ic = 562 \<and>
      ink_ops ic \<noteq> [] \<and>
      (\<exists>st'.
         run barPlatform LETTER_PATHS (mountTracingCard barPlatform (LEVELS ! 0) True)
           [Resize env450hd, PointerDown env450hd (pointerAt 90 382.5), Resize env450hd] = Inr st' \<and>
         inkCanvasRef st' = Some (ic\<lparr>ink_ops := []\<rparr>)))"
  by (simp add: evals)

section \<open>Accuracy of the platform's arithmetic\<close>

text \<open>
  How far the numbers that \<open>draw\<close> computes are from the exact ones, on a
  platform whose operations are accurate to \<open>eta\<close> on results up to \<open>M\<close>.
\<close>

lemma hypot_power2: "hypot a b = sqrt (a\<^sup>2 + b\<^sup>2)"
  by (simp add: hypot_def power2_eq_square)

lemma hypot_triangle: "hypot (a + c) (b + d) \<le> hypot a b + hypot c d"
  unfolding hypot_power2 by (rule real_sqrt_sum_squares_triangle_ineq)

lemma hypot_le_sum: "hypot a b \<le> \<bar>a\<bar> + \<bar>b\<bar>"
  unfolding hypot_power2 by (rule sqrt_sum_squares_le_sum_abs)

lemma hypot_diff: "\<bar>hypot a b - hypot c d\<bar> \<le> \<bar>a - c\<bar> + \<bar>b - d\<bar>"
proof -
  have 1: "hypot a b \<le> hypot c d + hypot (a - c) (b - d)"
    using hypot_triangle[of c "a - c" d "b - d"] by simp
  have 2: "hypot c d \<le> hypot a b + hypot (c - a) (d - b)"
    using hypot_triangle[of a "c - a" b "d - b"] by simp
  have 3: "hypot (a - c) (b - d) \<le> \<bar>a - c\<bar> + \<bar>b - d\<bar>" by (rule hypot_le_sum)
  have 4: "hypot (c - a) (d - b) \<le> \<bar>a - c\<bar> + \<bar>b - d\<bar>"
    using hypot_le_sum[of "c - a" "d - b"] by (simp add: abs_minus_commute)
  from 1 2 3 4 show ?thesis by linarith
qed

lemma hypot_scale: "0 < k \<Longrightarrow> hypot (a / k) (b / k) = hypot a b / k"
proof -
  assume k: "0 < k"
  have "(a / k) * (a / k) + (b / k) * (b / k) = (a * a + b * b) / (k * k)"
    by (simp add: add_divide_distrib)
  then have "hypot (a / k) (b / k) = sqrt ((a * a + b * b) / (k * k))" by (simp add: hypot_def)
  also have "\<dots> = sqrt (a * a + b * b) / sqrt (k * k)" by (rule real_sqrt_divide)
  also have "sqrt (k * k) = k" using k by simp
  finally show ?thesis by (simp add: hypot_def)
qed

lemma hypot_axis: "hypot a 0 = \<bar>a\<bar>" by (simp add: hypot_def)

lemma abs_scale_diff: "0 \<le> (k::real) \<Longrightarrow> \<bar>a * k - b * k\<bar> = \<bar>a - b\<bar> * k"
proof -
  assume k: "0 \<le> k"
  have "a * k - b * k = (a - b) * k" by (simp add: algebra_simps)
  then show ?thesis using k by (simp add: abs_mult)
qed

lemma abs_mult_le: "\<bar>a\<bar> \<le> A \<Longrightarrow> \<bar>b\<bar> \<le> B \<Longrightarrow> \<bar>a * b\<bar> \<le> A * (B::real)"
proof -
  assume a: "\<bar>a\<bar> \<le> A" and b: "\<bar>b\<bar> \<le> B"
  have "\<bar>a * b\<bar> = \<bar>a\<bar> * \<bar>b\<bar>" by (simp add: abs_mult)
  also have "\<dots> \<le> A * B" using a b by (intro mult_mono) simp_all
  finally show ?thesis .
qed

lemma abs_scale_diff2: "\<bar>k * a - k * b\<bar> = \<bar>k\<bar> * \<bar>a - (b::real)\<bar>"
proof -
  have "k * a - k * b = k * (a - b)" by (simp add: algebra_simps)
  then show ?thesis by (simp add: abs_mult)
qed

lemma toPx_accuracy:
  assumes acc: "accurate pf M eta" and e1: "eta \<le> 1"
    and v: "0 \<le> v" "v \<le> 100" and sz: "0 \<le> sz" "sz \<le> C" and M: "6 * C + 6 \<le> M"
  shows "\<bar>toPx pf v sz - v / 100 * sz\<bar> \<le> (1 + C) * eta" and "\<bar>toPx pf v sz\<bar> \<le> 2 * C + 1"
proof -
  from acc have eta0: "0 \<le> eta" and flM: "\<And>x. \<bar>x\<bar> \<le> M \<Longrightarrow> \<bar>fl pf x - x\<bar> \<le> eta"
    by (simp_all add: accurate_def)
  from sz have C0: "0 \<le> C" by simp
  define u where "u = v / 100"
  have u: "0 \<le> u" "u \<le> 1" using v by (simp_all add: u_def)
  have "\<bar>u\<bar> \<le> M" using u M C0 by simp
  from flM[OF this] have fu: "\<bar>fl pf u - u\<bar> \<le> eta" .
  then have fub: "\<bar>fl pf u\<bar> \<le> 2" using u e1 by linarith
  have prod: "\<bar>fl pf u * sz\<bar> \<le> 2 * C"
  proof -
    have "\<bar>fl pf u * sz\<bar> = \<bar>fl pf u\<bar> * sz" using sz by (simp add: abs_mult)
    also have "\<dots> \<le> 2 * C" using fub sz by (intro mult_mono) simp_all
    finally show ?thesis .
  qed
  then have "\<bar>fl pf u * sz\<bar> \<le> M" using M C0 by linarith
  from flM[OF this] have fv: "\<bar>fl pf (fl pf u * sz) - fl pf u * sz\<bar> \<le> eta" .
  have d: "\<bar>fl pf u * sz - u * sz\<bar> \<le> eta * C"
  proof -
    have "\<bar>fl pf u * sz - u * sz\<bar> = \<bar>fl pf u - u\<bar> * sz"
      using sz by (simp add: abs_scale_diff)
    also have "\<dots> \<le> eta * C" using fu sz eta0 by (intro mult_mono) simp_all
    finally show ?thesis .
  qed
  have t: "toPx pf v sz = fl pf (fl pf u * sz)" by (simp add: toPx_def u_def)
  have "\<bar>fl pf (fl pf u * sz) - u * sz\<bar> \<le> eta + eta * C" using fv d by linarith
  then show "\<bar>toPx pf v sz - v / 100 * sz\<bar> \<le> (1 + C) * eta"
    unfolding t u_def by (simp add: algebra_simps)
  from fv prod e1 show "\<bar>toPx pf v sz\<bar> \<le> 2 * C + 1"
    unfolding t by linarith
qed

lemma distToEnd_accuracy:
  assumes acc: "accurate pf M eta" and e1: "eta \<le> 1" and M: "6 * C + 6 \<le> M"
    and X: "\<bar>clientX e - rect_left env\<bar> \<le> C" and Y: "\<bar>clientY e - rect_top env\<bar> \<le> C"
    and w: "0 \<le> rect_width env" "rect_width env \<le> C"
    and h: "0 \<le> rect_height env" "rect_height env \<le> C"
    and ex: "0 \<le> fst (end_pt stroke)" "fst (end_pt stroke) \<le> 100"
    and ey: "0 \<le> snd (end_pt stroke)" "snd (end_pt stroke) \<le> 100"
  shows "\<bar>distToEnd pf env stroke (rawPoint pf env e) -
          hypot (clientX e - rect_left env - fst (end_pt stroke) / 100 * rect_width env)
                (clientY e - rect_top env - snd (end_pt stroke) / 100 * rect_height env)\<bar>
         \<le> (7 + 2 * C) * eta"
    and "\<bar>endThreshold pf env - 0.08 * rect_width env\<bar> \<le> (1 + C) * eta"
proof -
  from acc have eta0: "0 \<le> eta" and flM: "\<And>x. \<bar>x\<bar> \<le> M \<Longrightarrow> \<bar>fl pf x - x\<bar> \<le> eta"
    and hyM: "\<And>a b. hypot a b \<le> M \<Longrightarrow> \<bar>hypotF pf a b - hypot a b\<bar> \<le> eta"
    by (simp_all add: accurate_def)
  from w have C0: "0 \<le> C" by simp
  define X0 where "X0 = clientX e - rect_left env"
  define Y0 where "Y0 = clientY e - rect_top env"
  define ex0 where "ex0 = fst (end_pt stroke) / 100 * rect_width env"
  define ey0 where "ey0 = snd (end_pt stroke) / 100 * rect_height env"
  define endX where "endX = toPx pf (fst (end_pt stroke)) (rect_width env)"
  define endY where "endY = toPx pf (snd (end_pt stroke)) (rect_height env)"
  have eX: "\<bar>endX - ex0\<bar> \<le> (1 + C) * eta" "\<bar>endX\<bar> \<le> 2 * C + 1"
    unfolding endX_def ex0_def using toPx_accuracy[OF acc e1 ex w M] by simp_all
  have eY: "\<bar>endY - ey0\<bar> \<le> (1 + C) * eta" "\<bar>endY\<bar> \<le> 2 * C + 1"
    unfolding endY_def ey0_def using toPx_accuracy[OF acc e1 ey h M] by simp_all
  have "\<bar>X0\<bar> \<le> M" using X M C0 by (simp add: X0_def)
  from flM[OF this] have cX: "\<bar>fl pf X0 - X0\<bar> \<le> eta" .
  have "\<bar>Y0\<bar> \<le> M" using Y M C0 by (simp add: Y0_def)
  from flM[OF this] have cY: "\<bar>fl pf Y0 - Y0\<bar> \<le> eta" .
  have bx: "\<bar>fl pf X0 - endX\<bar> \<le> 3 * C + 2" using cX X eX(2) e1 unfolding X0_def by linarith
  have by': "\<bar>fl pf Y0 - endY\<bar> \<le> 3 * C + 2" using cY Y eY(2) e1 unfolding Y0_def by linarith
  have "\<bar>fl pf X0 - endX\<bar> \<le> M" using bx M C0 by linarith
  from flM[OF this] have dX: "\<bar>fl pf (fl pf X0 - endX) - (fl pf X0 - endX)\<bar> \<le> eta" .
  have "\<bar>fl pf Y0 - endY\<bar> \<le> M" using by' M C0 by linarith
  from flM[OF this] have dY: "\<bar>fl pf (fl pf Y0 - endY) - (fl pf Y0 - endY)\<bar> \<le> eta" .
  define A where "A = fl pf (fl pf X0 - endX)"
  define B where "B = fl pf (fl pf Y0 - endY)"
  have Ab: "\<bar>A\<bar> \<le> 3 * C + 3" using dX bx e1 unfolding A_def by linarith
  have Bb: "\<bar>B\<bar> \<le> 3 * C + 3" using dY by' e1 unfolding B_def by linarith
  have "hypot A B \<le> \<bar>A\<bar> + \<bar>B\<bar>" by (rule hypot_le_sum)
  then have "hypot A B \<le> M" using Ab Bb M by linarith
  from hyM[OF this] have hy: "\<bar>hypotF pf A B - hypot A B\<bar> \<le> eta" .
  have eA: "\<bar>A - (X0 - ex0)\<bar> \<le> (3 + C) * eta"
  proof -
    have "\<bar>A - (X0 - ex0)\<bar> \<le> eta + eta + (1 + C) * eta"
      using dX cX eX(1) unfolding A_def by linarith
    then show ?thesis by (simp add: algebra_simps)
  qed
  have eB: "\<bar>B - (Y0 - ey0)\<bar> \<le> (3 + C) * eta"
  proof -
    have "\<bar>B - (Y0 - ey0)\<bar> \<le> eta + eta + (1 + C) * eta"
      using dY cY eY(1) unfolding B_def by linarith
    then show ?thesis by (simp add: algebra_simps)
  qed
  have "\<bar>hypot A B - hypot (X0 - ex0) (Y0 - ey0)\<bar> \<le> \<bar>A - (X0 - ex0)\<bar> + \<bar>B - (Y0 - ey0)\<bar>"
    by (rule hypot_diff)
  with eA eB hy have "\<bar>hypotF pf A B - hypot (X0 - ex0) (Y0 - ey0)\<bar> \<le> eta + 2 * ((3 + C) * eta)"
    by linarith
  then have fin: "\<bar>hypotF pf A B - hypot (X0 - ex0) (Y0 - ey0)\<bar> \<le> (7 + 2 * C) * eta"
    by (simp add: algebra_simps)
  have d: "distToEnd pf env stroke (rawPoint pf env e) = hypotF pf A B"
    by (simp add: distToEnd_def rawPoint_def getPoint_def Let_def A_def B_def X0_def Y0_def
        endX_def endY_def)
  show "\<bar>distToEnd pf env stroke (rawPoint pf env e) -
          hypot (clientX e - rect_left env - fst (end_pt stroke) / 100 * rect_width env)
                (clientY e - rect_top env - snd (end_pt stroke) / 100 * rect_height env)\<bar>
         \<le> (7 + 2 * C) * eta"
    using fin unfolding d X0_def Y0_def ex0_def ey0_def .
  define k where "k = fl pf 0.08"
  have "\<bar>(0.08::real)\<bar> \<le> M" using M C0 by simp
  from flM[OF this] have fk: "\<bar>k - 2 / 25\<bar> \<le> eta" by (simp add: k_def)
  then have kb: "\<bar>k\<bar> \<le> 2" using e1 by linarith
  have pk: "\<bar>rect_width env * k\<bar> \<le> 2 * C"
  proof -
    have "\<bar>rect_width env * k\<bar> = \<bar>k\<bar> * rect_width env" using w by (simp add: abs_mult)
    also have "\<dots> \<le> 2 * C" using kb w by (intro mult_mono) simp_all
    finally show ?thesis .
  qed
  then have "\<bar>rect_width env * k\<bar> \<le> M" using M C0 by linarith
  from flM[OF this] have ft: "\<bar>fl pf (rect_width env * k) - rect_width env * k\<bar> \<le> eta" .
  have dk: "\<bar>rect_width env * k - 2 / 25 * rect_width env\<bar> \<le> eta * C"
  proof -
    have "\<bar>k * rect_width env - 2 / 25 * rect_width env\<bar> = \<bar>k - 2 / 25\<bar> * rect_width env"
      using w by (simp only: abs_scale_diff)
    also have "\<dots> \<le> eta * C" using fk w eta0 by (intro mult_mono) simp_all
    finally show ?thesis by (simp add: mult.commute)
  qed
  have "\<bar>fl pf (rect_width env * k) - 2 / 25 * rect_width env\<bar> \<le> eta + eta * C"
    using ft dk by linarith
  then show "\<bar>endThreshold pf env - 0.08 * rect_width env\<bar> \<le> (1 + C) * eta"
    unfolding endThreshold_def k_def by (simp add: algebra_simps)
qed

lemma lerp_accuracy:
  assumes acc: "accurate pf M eta" and e1: "eta \<le> 1" and M: "6 * C + 6 \<le> M"
    and s: "\<bar>s\<bar> \<le> C" and e: "\<bar>e\<bar> \<le> C" and tau: "0 \<le> tau" "tau \<le> 1"
  shows "\<bar>lerp pf s e (fl pf tau) - (s + tau * (e - s))\<bar> \<le> 3 * (1 + C) * eta"
proof -
  from acc have eta0: "0 \<le> eta" and flM: "\<And>x. \<bar>x\<bar> \<le> M \<Longrightarrow> \<bar>fl pf x - x\<bar> \<le> eta"
    by (simp_all add: accurate_def)
  from s have C0: "0 \<le> C" by simp
  define t where "t = fl pf tau"
  have "\<bar>tau\<bar> \<le> M" using tau M C0 by simp
  from flM[OF this] have t1: "\<bar>t - tau\<bar> \<le> eta" by (simp add: t_def)
  then have tb: "\<bar>t\<bar> \<le> 2" using tau e1 by linarith
  define a where "a = fl pf (1 - t)"
  have "\<bar>1 - t\<bar> \<le> M" using tb M C0 by linarith
  from flM[OF this] have a1: "\<bar>a - (1 - t)\<bar> \<le> eta" by (simp add: a_def)
  then have a2: "\<bar>a - (1 - tau)\<bar> \<le> 2 * eta" using t1 by linarith
  then have ab: "\<bar>a\<bar> \<le> 3" using tau e1 by linarith
  define p where "p = fl pf (s * a)"
  have sa: "\<bar>s * a\<bar> \<le> C * 3" using s ab by (rule abs_mult_le)
  then have "\<bar>s * a\<bar> \<le> M" using M C0 by linarith
  from flM[OF this] have p1: "\<bar>p - s * a\<bar> \<le> eta" by (simp add: p_def)
  have "\<bar>s * a - s * (1 - tau)\<bar> = \<bar>s\<bar> * \<bar>a - (1 - tau)\<bar>" by (rule abs_scale_diff2)
  also have "\<dots> \<le> C * (2 * eta)" using s a2 by (intro mult_mono) simp_all
  finally have p2: "\<bar>s * a - s * (1 - tau)\<bar> \<le> 2 * C * eta" by simp
  define q where "q = fl pf (e * t)"
  have et: "\<bar>e * t\<bar> \<le> C * 2" using e tb by (rule abs_mult_le)
  then have "\<bar>e * t\<bar> \<le> M" using M C0 by linarith
  from flM[OF this] have q1: "\<bar>q - e * t\<bar> \<le> eta" by (simp add: q_def)
  have "\<bar>e * t - e * tau\<bar> = \<bar>e\<bar> * \<bar>t - tau\<bar>" by (rule abs_scale_diff2)
  also have "\<dots> \<le> C * eta" using e t1 by (intro mult_mono) simp_all
  finally have q2: "\<bar>e * t - e * tau\<bar> \<le> C * eta" .
  have "\<bar>p + q\<bar> \<le> M" using p1 sa q1 et e1 M C0 by linarith
  from flM[OF this] have r1: "\<bar>fl pf (p + q) - (p + q)\<bar> \<le> eta" .
  have g: "s + tau * (e - s) = s * (1 - tau) + e * tau" by (simp add: algebra_simps)
  have "\<bar>fl pf (p + q) - (s * (1 - tau) + e * tau)\<bar> \<le> 3 * eta + 3 * C * eta"
    using r1 p1 p2 q1 q2 by linarith
  then have "\<bar>fl pf (p + q) - (s + tau * (e - s))\<bar> \<le> 3 * (1 + C) * eta"
    unfolding g by (simp add: algebra_simps)
  then show ?thesis by (simp add: lerp_def p_def q_def a_def t_def)
qed

lemma stepCount_accuracy:
  assumes acc: "accurate pf M eta" and e1: "eta \<le> 1" and M: "6 * C + 6 \<le> M"
    and l: "\<bar>fst lastP\<bar> \<le> C" "\<bar>snd lastP\<bar> \<le> C" and c: "\<bar>fst cur\<bar> \<le> C" "\<bar>snd cur\<bar> \<le> C"
  shows "hypot (fst cur - fst lastP) (snd cur - snd lastP) \<le> 2 * real (stepCount pf lastP cur) + 5 * eta"
proof -
  from acc have eta0: "0 \<le> eta" and flM: "\<And>x. \<bar>x\<bar> \<le> M \<Longrightarrow> \<bar>fl pf x - x\<bar> \<le> eta"
    and hyM: "\<And>a b. hypot a b \<le> M \<Longrightarrow> \<bar>hypotF pf a b - hypot a b\<bar> \<le> eta"
    by (simp_all add: accurate_def)
  from l have C0: "0 \<le> C" by simp
  define dx where "dx = fst cur - fst lastP"
  define dy where "dy = snd cur - snd lastP"
  define A where "A = fl pf dx"
  define B where "B = fl pf dy"
  have dxb: "\<bar>dx\<bar> \<le> 2 * C" using l c unfolding dx_def by linarith
  have dyb: "\<bar>dy\<bar> \<le> 2 * C" using l c unfolding dy_def by linarith
  have "\<bar>dx\<bar> \<le> M" using dxb M C0 by linarith
  from flM[OF this] have A1: "\<bar>A - dx\<bar> \<le> eta" by (simp add: A_def)
  have "\<bar>dy\<bar> \<le> M" using dyb M C0 by linarith
  from flM[OF this] have B1: "\<bar>B - dy\<bar> \<le> eta" by (simp add: B_def)
  have hAB: "hypot A B \<le> \<bar>A\<bar> + \<bar>B\<bar>" by (rule hypot_le_sum)
  then have "hypot A B \<le> M" using A1 B1 dxb dyb e1 M C0 by linarith
  from hyM[OF this] have h1: "\<bar>hypotF pf A B - hypot A B\<bar> \<le> eta" .
  have h2: "\<bar>hypot A B - hypot dx dy\<bar> \<le> \<bar>A - dx\<bar> + \<bar>B - dy\<bar>" by (rule hypot_diff)
  define dh where "dh = hypotF pf A B"
  have h3: "\<bar>dh - hypot dx dy\<bar> \<le> 3 * eta" using h1 h2 A1 B1 unfolding dh_def by linarith
  have "\<bar>dh / 2\<bar> \<le> M" using h1 hAB A1 B1 dxb dyb e1 M C0 hypot_nonneg[of A B] unfolding dh_def by linarith
  from flM[OF this] have f1: "\<bar>fl pf (dh / 2) - dh / 2\<bar> \<le> eta" .
  have "fl pf (dh / 2) \<le> of_int \<lceil>fl pf (dh / 2)\<rceil>" by (rule le_of_int_ceiling)
  also have "\<dots> \<le> real (nat \<lceil>fl pf (dh / 2)\<rceil>)" by simp
  finally have n1: "fl pf (dh / 2) \<le> real (stepCount pf lastP cur)"
    by (simp add: stepCount_def dh_def A_def B_def dx_def dy_def)
  from n1 f1 h3 show ?thesis unfolding dx_def dy_def by linarith
qed

text \<open>Binary64 arithmetic is accurate to \<open>M / 2 ^ 53\<close> on results up to \<open>M\<close>.\<close>

lemma binary64_scaled:
  assumes lo: "2 ^ 52 \<le> \<bar>x\<bar> * 2 ^ n" and hi: "\<bar>x\<bar> * 2 ^ n < 2 ^ 53"
  shows "binary64 x = of_int (roundEven (x * 2 ^ n)) / 2 ^ n"
proof -
  from lo have x0: "x \<noteq> 0" by auto
  then have ax: "0 < \<bar>x\<bar>" by simp
  have p: "(2::real) powr (52 - real n) = 2 ^ 52 / 2 ^ n"
    by (simp add: powr_diff powr_realpow)
  have q: "(2::real) powr (53 - real n) = 2 ^ 53 / 2 ^ n"
    by (simp add: powr_diff powr_realpow)
  from lo have "2 powr (52 - real n) \<le> \<bar>x\<bar>" unfolding p by (simp add: field_simps)
  then have l1: "52 - real n \<le> log 2 \<bar>x\<bar>" using ax by (simp add: le_log_iff)
  from hi have "\<bar>x\<bar> < 2 powr (53 - real n)" unfolding q by (simp add: field_simps)
  then have l2: "log 2 \<bar>x\<bar> < 53 - real n" using ax by (simp add: log_less_iff)
  have "\<lfloor>log 2 \<bar>x\<bar>\<rfloor> = 52 - int n"
    using l1 l2 by (simp add: floor_eq_iff)
  then have e: "\<lfloor>log 2 \<bar>x\<bar>\<rfloor> - 52 = - int n" by simp
  have pw: "(2::real) powr of_int (- int n) = 1 / 2 ^ n"
    by (simp add: powr_minus powr_realpow field_simps)
  show ?thesis using x0 unfolding binary64_def Let_def e pw by simp
qed

lemma roundEven_error: "\<bar>of_int (roundEven y) - y\<bar> \<le> 1 / 2"
proof -
  have f: "of_int \<lfloor>y\<rfloor> \<le> y" "y < of_int \<lfloor>y\<rfloor> + 1" by linarith+
  then show ?thesis unfolding roundEven_def Let_def by (auto split: if_splits)
qed

lemma binary64_error: "\<bar>binary64 x - x\<bar> \<le> \<bar>x\<bar> / 2 ^ 53"
proof (cases "x = 0")
  case True
  then show ?thesis by (simp add: binary64_def)
next
  case False
  then have ax: "0 < \<bar>x\<bar>" by simp
  define e where "e = \<lfloor>log 2 \<bar>x\<bar>\<rfloor> - 52"
  define p where "p = (2::real) powr of_int e"
  have p0: "0 < p" by (simp add: p_def)
  have b: "binary64 x = of_int (roundEven (x / p)) * p"
    using False by (simp add: binary64_def Let_def e_def p_def)
  have "binary64 x - x = (of_int (roundEven (x / p)) - x / p) * p"
    using p0 by (simp add: b algebra_simps)
  then have "\<bar>binary64 x - x\<bar> = \<bar>of_int (roundEven (x / p)) - x / p\<bar> * p"
    using p0 by (simp add: abs_mult)
  also have "\<dots> \<le> 1 / 2 * p"
    using roundEven_error[of "x / p"] p0 by (intro mult_right_mono) simp_all
  finally have 1: "\<bar>binary64 x - x\<bar> \<le> p / 2" by simp
  have "of_int e \<le> log 2 \<bar>x\<bar> - 52" by (simp add: e_def)
  then have "p \<le> 2 powr (log 2 \<bar>x\<bar> - 52)" by (simp add: p_def)
  also have "\<dots> = \<bar>x\<bar> / 2 ^ 52" using ax by (simp add: powr_diff powr_realpow[symmetric])
  finally have "p \<le> \<bar>x\<bar> / 2 ^ 52" .
  with 1 show ?thesis by simp
qed

lemma accurate_doublePlatform: "0 \<le> M \<Longrightarrow> accurate doublePlatform M (M / 2 ^ 53)"
proof -
  assume M: "0 \<le> M"
  have 1: "\<bar>fl doublePlatform x - x\<bar> \<le> M / 2 ^ 53" if "\<bar>x\<bar> \<le> M" for x
  proof -
    have "\<bar>binary64 x - x\<bar> \<le> \<bar>x\<bar> / 2 ^ 53" by (rule binary64_error)
    also have "\<dots> \<le> M / 2 ^ 53" using that by (simp add: divide_right_mono)
    finally show ?thesis by (simp add: doublePlatform_def)
  qed
  have 2: "\<bar>hypotF doublePlatform a b - hypot a b\<bar> \<le> M / 2 ^ 53" if "hypot a b \<le> M" for a b
  proof -
    have h0: "0 \<le> hypot a b" by (rule hypot_nonneg)
    have "\<bar>binary64 (hypot a b) - hypot a b\<bar> \<le> \<bar>hypot a b\<bar> / 2 ^ 53" by (rule binary64_error)
    also have "\<dots> \<le> M / 2 ^ 53" using that h0 by (simp add: divide_right_mono)
    finally show ?thesis by (simp add: doublePlatform_def)
  qed
  from M 1 2 show ?thesis by (simp add: accurate_def)
qed

lemma fl_double: "fl doublePlatform = binary64"
  by (simp add: doublePlatform_def)

lemma hypotF_double: "hypotF doublePlatform a b = binary64 (hypot a b)"
  by (simp add: doublePlatform_def)

text \<open>The fields of the concrete inputs.\<close>

lemma capturingA_facts:
  "capturing doublePlatform LETTER_PATHS capturingA"
  "capturing barPlatform LETTER_PATHS capturingA"
  "letterConfig LETTER_PATHS capturingA = Some pathsA"
  "activeStrokeIdx capturingA = 2"
  "end_pt (strokes pathsA ! 2) = (70, 60)"
  "lastPosRef capturingA = Some (90, 180)"
  by (simp_all add: capturing_def capturingA_def lastStrokeA_def initialState_def barPlatform_def
      doublePlatform_def letterConfig_def LETTER_PATHS_def LEVELS_def pathsA_def)

lemma env350_fields:
  "rect_left env350 = 10" "rect_top env350 = 20" "rect_width env350 = 350"
  "rect_height env350 = 350"
  by (simp_all add: env350_def)

lemma env300o_fields:
  "rect_left env300o = 10" "rect_top env300o = 20" "rect_width env300o = 300"
  "rect_height env300o = 300"
  by (simp_all add: env300o_def)

lemma pointerAt_fields: "clientX (pointerAt a b) = a" "clientY (pointerAt a b) = b"
  by (simp_all add: pointerAt_def)

section \<open>Interpolation of pointer moves\<close>

lemma tested_nth:
  "i \<le> stepCount pf lastP cur \<Longrightarrow>
     tested pf lastP cur ! i = samplePoint pf lastP cur (stepCount pf lastP cur) i"
  unfolding tested_def by (simp only: nth_map_upt length_upt nth_upt) simp

lemma samplePoint_last:
  assumes "fl pf 0 = 0" "fl pf 1 = 1" "fl pf (fst cur) = fst cur" "fl pf (snd cur) = snd cur"
  shows "samplePoint pf lastP cur n n = cur"
  using assms by (simp add: samplePoint_def lerp_def prod_eq_iff)

lemma samplePoint_first:
  assumes "0 < n" "fl pf 0 = 0" "fl pf 1 = 1" "fl pf (fst lastP) = fst lastP"
    "fl pf (snd lastP) = snd lastP"
  shows "samplePoint pf lastP cur n 0 = lastP"
  using assms by (simp add: samplePoint_def lerp_def prod_eq_iff)

lemma samplePoint_accuracy:
  assumes acc: "accurate pf M eta" and e1: "eta \<le> 1" and M: "6 * C + 6 \<le> M"
    and l: "\<bar>fst lastP\<bar> \<le> C" "\<bar>snd lastP\<bar> \<le> C" and c: "\<bar>fst cur\<bar> \<le> C" "\<bar>snd cur\<bar> \<le> C"
    and n: "0 < n" and i: "i \<le> n"
  shows "\<bar>fst (samplePoint pf lastP cur n i) -
           (fst lastP + real i / real n * (fst cur - fst lastP))\<bar> \<le> 3 * (1 + C) * eta"
    and "\<bar>snd (samplePoint pf lastP cur n i) -
           (snd lastP + real i / real n * (snd cur - snd lastP))\<bar> \<le> 3 * (1 + C) * eta"
proof -
  have t0: "0 \<le> real i / real n" by simp
  have t1: "real i / real n \<le> 1" using n i by simp
  from n have f: "fst (samplePoint pf lastP cur n i) = lerp pf (fst lastP) (fst cur) (fl pf (real i / real n))"
    and g: "snd (samplePoint pf lastP cur n i) = lerp pf (snd lastP) (snd cur) (fl pf (real i / real n))"
    by (simp_all add: samplePoint_def Let_def)
  show "\<bar>fst (samplePoint pf lastP cur n i) -
           (fst lastP + real i / real n * (fst cur - fst lastP))\<bar> \<le> 3 * (1 + C) * eta"
    unfolding f by (rule lerp_accuracy[OF acc e1 M l(1) c(1) t0 t1])
  show "\<bar>snd (samplePoint pf lastP cur n i) -
           (snd lastP + real i / real n * (snd cur - snd lastP))\<bar> \<le> 3 * (1 + C) * eta"
    unfolding g by (rule lerp_accuracy[OF acc e1 M l(2) c(2) t0 t1])
qed

lemma samplePoint_spacing:
  assumes acc: "accurate pf M eta" and e1: "eta \<le> 1" and M: "6 * C + 6 \<le> M"
    and l: "\<bar>fst lastP\<bar> \<le> C" "\<bar>snd lastP\<bar> \<le> C" and c: "\<bar>fst cur\<bar> \<le> C" "\<bar>snd cur\<bar> \<le> C"
    and i: "i < stepCount pf lastP cur"
  shows "hypot (fst (samplePoint pf lastP cur (stepCount pf lastP cur) (Suc i)) -
                fst (samplePoint pf lastP cur (stepCount pf lastP cur) i))
               (snd (samplePoint pf lastP cur (stepCount pf lastP cur) (Suc i)) -
                snd (samplePoint pf lastP cur (stepCount pf lastP cur) i))
         \<le> 2 + (17 + 12 * C) * eta"
proof -
  define n where "n = stepCount pf lastP cur"
  from acc have eta0: "0 \<le> eta" by (simp add: accurate_def)
  from l have C0: "0 \<le> C" by simp
  from i have n0: "0 < n" and i1: "i \<le> n" and i2: "Suc i \<le> n" by (simp_all add: n_def)
  define dx where "dx = fst cur - fst lastP"
  define dy where "dy = snd cur - snd lastP"
  define E where "E = 3 * (1 + C) * eta"
  define t0 where "t0 = real i / real n"
  define t1 where "t1 = real (Suc i) / real n"
  define a where "a = fst (samplePoint pf lastP cur n (Suc i)) - fst (samplePoint pf lastP cur n i)"
  define b where "b = snd (samplePoint pf lastP cur n (Suc i)) - snd (samplePoint pf lastP cur n i)"
  define wx where "wx = dx / real n"
  define wy where "wy = dy / real n"
  define px where "px = t1 * dx - t0 * dx"
  define py where "py = t1 * dy - t0 * dy"
  note a1 = samplePoint_accuracy[OF acc e1 M l c n0 i1, folded dx_def dy_def E_def t0_def]
  note a2 = samplePoint_accuracy[OF acc e1 M l c n0 i2, folded dx_def dy_def E_def t1_def]
  have st: "t1 * v - t0 * v = v / real n" for v
    using n0 by (simp add: field_simps t0_def t1_def)
  have sx: "px = wx" unfolding px_def wx_def by (rule st)
  have sy: "py = wy" unfolding py_def wy_def by (rule st)
  have "\<bar>a - px\<bar> \<le> 2 * E"
    using a1(1) a2(1) unfolding a_def px_def by linarith
  then have da: "\<bar>a - dx / real n\<bar> \<le> 2 * E" unfolding sx wx_def .
  have "\<bar>b - py\<bar> \<le> 2 * E"
    using a1(2) a2(2) unfolding b_def py_def by linarith
  then have db: "\<bar>b - dy / real n\<bar> \<le> 2 * E" unfolding sy wy_def .
  have h1: "\<bar>hypot a b - hypot (dx / real n) (dy / real n)\<bar> \<le> \<bar>a - dx / real n\<bar> + \<bar>b - dy / real n\<bar>"
    by (rule hypot_diff)
  have h2: "hypot (dx / real n) (dy / real n) = hypot dx dy / real n"
    using n0 by (simp add: hypot_scale)
  have d: "hypot dx dy \<le> 2 * real n + 5 * eta"
    using stepCount_accuracy[OF acc e1 M l c] by (simp add: dx_def dy_def n_def)
  have n1: "1 \<le> real n" using n0 by simp
  have "hypot dx dy / real n \<le> (2 * real n + 5 * eta) / real n"
    using d n0 by (simp add: divide_right_mono)
  also have "\<dots> = 2 + 5 * eta / real n" using n0 by (simp add: field_simps)
  also have "5 * eta / real n \<le> 5 * eta / 1"
    using n1 eta0 by (intro divide_left_mono) simp_all
  finally have h3: "hypot dx dy / real n \<le> 2 + 5 * eta" by simp
  have "hypot a b \<le> 2 + 5 * eta + 4 * E" using h1 h2 h3 da db by linarith
  also have "\<dots> = 2 + (17 + 12 * C) * eta" by (simp add: E_def algebra_simps)
  finally show ?thesis by (simp add: a_def b_def n_def)
qed

lemma move_ink_next:
  assumes cap: "capturing pf tbl s" and cfg: "letterConfig tbl s = Some cfg"
  shows "\<exists>s' snap. handle pf tbl s (PointerMove env e) = Inr s' \<and> length snap \<le> 1 \<and>
     inkOf s' = inkOf s @ stamps pf env (strokes cfg ! activeStrokeIdx s)
                  (previousPoint pf env s e) (rawPoint pf env e) @ snap \<and>
     (snap = [] \<longrightarrow> lastPosRef s' = Some (rawPoint pf env e) \<and> capturing pf tbl s' \<and>
        activeStrokeIdx s' = activeStrokeIdx s \<and> letterConfig tbl s' = Some cfg)"
proof -
  let ?st = "stamps pf env (strokes cfg ! activeStrokeIdx s) (previousPoint pf env s e) (rawPoint pf env e)"
  let ?near = "distToEnd pf env (strokes cfg ! activeStrokeIdx s) (rawPoint pf env e) < endThreshold pf env"
  from draw_capturing[OF cap cfg, of env e] obtain s' where
    d: "draw pf tbl env s e = Inr s'"
    and k: "isActive s' = isActive s" "levelData s' = levelData s"
      "inkCanvasRef s' \<noteq> None" "canvasRef s' \<noteq> None"
    and r: "if ?near then (\<exists>snap. inkOf s' = inkOf s @ ?st @ [snap])
         else activeStrokeIdx s' = activeStrokeIdx s \<and> isDrawingRef s'
           \<and> lastPosRef s' = Some (rawPoint pf env e)
           \<and> inkOf s' = inkOf s @ ?st
           \<and> \<not> successTriggered s'"
    by (auto split: if_splits)
  show ?thesis
  proof (cases ?near)
    case True
    with r obtain x where "inkOf s' = inkOf s @ ?st @ [x]" by auto
    with d show ?thesis by (intro exI[of _ s'] exI[of _ "[x]"]) simp
  next
    case False
    with r have f: "activeStrokeIdx s' = activeStrokeIdx s" "isDrawingRef s'"
      "lastPosRef s' = Some (rawPoint pf env e)" "inkOf s' = inkOf s @ ?st @ []"
      "\<not> successTriggered s'" by simp_all
    have lc: "letterConfig tbl s' = Some cfg" using cfg k(2) by (simp add: letterConfig_def)
    have "capturing pf tbl s'" using cap cfg lc f k by (simp add: capturing_def)
    with d f lc show ?thesis by (intro exI[of _ s'] exI[of _ "[]"]) simp
  qed
qed

lemma down_ink:
  assumes a: "isActive s" "\<not> successTriggered s" "letterConfig tbl s = Some cfg"
    "activeStrokeIdx s < length (strokes cfg)" "canvasRef s \<noteq> None" "inkCanvasRef s \<noteq> None"
    "ctx2d pf"
  shows "\<exists>s' snap. handle pf tbl s (PointerDown env e) = Inr s' \<and> length snap \<le> 1 \<and>
     inkOf s' = inkOf s @ stamps pf env (strokes cfg ! activeStrokeIdx s)
                  (rawPoint pf env e) (rawPoint pf env e) @ snap \<and>
     (snap = [] \<longrightarrow> lastPosRef s' = Some (rawPoint pf env e) \<and> capturing pf tbl s' \<and>
        activeStrokeIdx s' = activeStrokeIdx s \<and> letterConfig tbl s' = Some cfg)"
proof -
  let ?s = "s\<lparr>isDrawingRef := True, lastPosRef := Some (rawPoint pf env e)\<rparr>"
  have h: "handle pf tbl s (PointerDown env e) = handle pf tbl ?s (PointerMove env e)"
    using a by (simp add: startDrawing_def)
  have cap: "capturing pf tbl ?s" using a by (simp add: capturing_def)
  have cfg: "letterConfig tbl ?s = Some cfg" using a by simp
  have pp: "previousPoint pf env ?s e = rawPoint pf env e" by (simp add: previousPoint_def)
  from move_ink_next[OF cap cfg, of env e] show ?thesis
    unfolding h pp by (simp add: inkOf_def)
qed

lemma stepCount_unfolded:
  "nat \<lceil>fl pf (hypotF pf (fl pf (fst cur - fst lastP)) (fl pf (snd cur - snd lastP)) / 2)\<rceil> =
     stepCount pf lastP cur"
  by (simp add: stepCount_def)

lemma samplePoint_unfolded:
  "(fl pf (fl pf (fst lastP * fl pf (1 - (if n = 0 then 1 else fl pf (real i / real n)))) +
           fl pf (fst cur * (if n = 0 then 1 else fl pf (real i / real n)))),
    fl pf (fl pf (snd lastP * fl pf (1 - (if n = 0 then 1 else fl pf (real i / real n)))) +
           fl pf (snd cur * (if n = 0 then 1 else fl pf (real i / real n))))) =
     samplePoint pf lastP cur n i"
  by (simp add: samplePoint_def lerp_def Let_def)

text \<open>
  C8. With \<open>lastP\<close> the previous raw point and \<open>cur\<close> the current one, the loop
  of \<open>draw\<close> visits \<open>n + 1\<close> points, where \<open>n\<close> is the ceiling of half the
  distance from \<open>lastP\<close> to \<open>cur\<close> as the platform computes it; point \<open>i\<close> is
  the interpolation of the two at \<open>t = i / n\<close> (at \<open>t = 1\<close> if \<open>n = 0\<close>), computed
  as \<open>lastP * (1 - t) + cur * t\<close> by the platform.

  If the platform computes 0, 1 and the four coordinates exactly, the last point
  is \<open>cur\<close> and, when there is more than one, the first is \<open>lastP\<close>.

  If the platform's operations are accurate to \<open>eta\<close> on results up to \<open>M\<close> and
  the coordinates are at most \<open>C\<close> in size, with \<open>6 * C + 6 \<le> M\<close>, then the exact
  distance is at most \<open>2 * n + 5 * eta\<close>, every coordinate of point \<open>i\<close> is within
  \<open>3 * (1 + C) * eta\<close> of the evenly spaced point at the fraction \<open>i / n\<close> of
  the way from \<open>lastP\<close> to \<open>cur\<close>, and neighbours are at most
  \<open>2 + (17 + 12 * C) * eta\<close> apart: at most 2 in exact arithmetic.

  Every pointer move during a capture, however short, runs the loop from
  \<open>lastPosRef\<close> (the raw point \<open>clientX - rect.left\<close>, \<open>clientY - rect.top\<close>
  of the move itself if there is none) to the raw point of the move: the ink it
  lays down is one stamp for each visited point that passes the hit test,
  followed by the snapped stroke if the move completes the stroke. If it does
  not, the capture goes on and \<open>lastPosRef\<close> is the raw point of the move, from
  which the next move interpolates. A pointer-down that starts a capture runs
  the same loop from its own raw point to its own raw point, and leaves it in
  \<open>lastPosRef\<close>.
\<close>

theorem interpolation_samples:
  "(let n = nat \<lceil>fl pf (hypotF pf (fl pf (fst cur - fst lastP)) (fl pf (snd cur - snd lastP)) / 2)\<rceil>;
        t = (\<lambda>i. if n = 0 then 1 else fl pf (real i / real n));
        sample = (\<lambda>i. (fl pf (fl pf (fst lastP * fl pf (1 - t i)) + fl pf (fst cur * t i)),
                       fl pf (fl pf (snd lastP * fl pf (1 - t i)) + fl pf (snd cur * t i))))
    in tested pf lastP cur = map sample [0..<n + 1] \<and>
       (fl pf 0 = 0 \<and> fl pf 1 = 1 \<and> fl pf (fst lastP) = fst lastP \<and> fl pf (snd lastP) = snd lastP \<and>
        fl pf (fst cur) = fst cur \<and> fl pf (snd cur) = snd cur \<longrightarrow>
          sample n = cur \<and> (0 < n \<longrightarrow> sample 0 = lastP)) \<and>
       (\<forall>M eta C.
          accurate pf M eta \<and> eta \<le> 1 \<and> 6 * C + 6 \<le> M \<and>
          \<bar>fst lastP\<bar> \<le> C \<and> \<bar>snd lastP\<bar> \<le> C \<and> \<bar>fst cur\<bar> \<le> C \<and> \<bar>snd cur\<bar> \<le> C \<longrightarrow>
            sqrt ((fst cur - fst lastP)\<^sup>2 + (snd cur - snd lastP)\<^sup>2) \<le> 2 * real n + 5 * eta \<and>
            (\<forall>i \<le> n. 0 < n \<longrightarrow>
               \<bar>fst (sample i) - (fst lastP + real i / real n * (fst cur - fst lastP))\<bar>
                  \<le> 3 * (1 + C) * eta \<and>
               \<bar>snd (sample i) - (snd lastP + real i / real n * (snd cur - snd lastP))\<bar>
                  \<le> 3 * (1 + C) * eta) \<and>
            (\<forall>i < n.
               sqrt ((fst (sample (Suc i)) - fst (sample i))\<^sup>2 +
                     (snd (sample (Suc i)) - snd (sample i))\<^sup>2) \<le> 2 + (17 + 12 * C) * eta))) \<and>
   (capturing pf tbl s \<and> letterConfig tbl s = Some cfg \<longrightarrow>
      (let c = (fl pf (clientX e - rect_left env), fl pf (clientY e - rect_top env));
           p = (case lastPosRef s of Some q \<Rightarrow> q | None \<Rightarrow> c)
       in \<exists>s' snap. handle pf tbl s (PointerMove env e) = Inr s' \<and> length snap \<le> 1 \<and>
            inkOf s' = inkOf s @
              map (\<lambda>q. Stamp q (rect_width env * 0.065))
                (filter (isInside pf env (strokes cfg ! activeStrokeIdx s)) (tested pf p c)) @ snap \<and>
            (snap = [] \<longrightarrow> lastPosRef s' = Some c \<and> capturing pf tbl s' \<and>
               activeStrokeIdx s' = activeStrokeIdx s \<and> letterConfig tbl s' = Some cfg))) \<and>
   (isActive s \<and> \<not> successTriggered s \<and> letterConfig tbl s = Some cfg \<and>
    activeStrokeIdx s < length (strokes cfg) \<and> canvasRef s \<noteq> None \<and> inkCanvasRef s \<noteq> None \<and>
    ctx2d pf \<longrightarrow>
      (let c = (fl pf (clientX e - rect_left env), fl pf (clientY e - rect_top env))
       in \<exists>s' snap. handle pf tbl s (PointerDown env e) = Inr s' \<and> length snap \<le> 1 \<and>
            inkOf s' = inkOf s @
              map (\<lambda>q. Stamp q (rect_width env * 0.065))
                (filter (isInside pf env (strokes cfg ! activeStrokeIdx s)) (tested pf c c)) @ snap \<and>
            (snap = [] \<longrightarrow> lastPosRef s' = Some c \<and> capturing pf tbl s' \<and>
               activeStrokeIdx s' = activeStrokeIdx s \<and> letterConfig tbl s' = Some cfg)))"
proof -
  define n where "n = stepCount pf lastP cur"
  define sample where "sample = samplePoint pf lastP cur n"
  have n_eq: "nat \<lceil>fl pf (hypotF pf (fl pf (fst cur - fst lastP)) (fl pf (snd cur - snd lastP)) / 2)\<rceil> = n"
    by (simp add: n_def stepCount_def)
  have s_eq: "(fl pf (fl pf (fst lastP * fl pf (1 - (if n = 0 then 1 else fl pf (real i / real n)))) +
                      fl pf (fst cur * (if n = 0 then 1 else fl pf (real i / real n)))),
               fl pf (fl pf (snd lastP * fl pf (1 - (if n = 0 then 1 else fl pf (real i / real n)))) +
                      fl pf (snd cur * (if n = 0 then 1 else fl pf (real i / real n))))) = sample i" for i
    by (simp add: sample_def samplePoint_def lerp_def Let_def)
  have c_eq: "(fl pf (clientX e - rect_left env), fl pf (clientY e - rect_top env)) = rawPoint pf env e"
    by (simp add: rawPoint_def)
  have p_eq: "(case lastPosRef s of Some q \<Rightarrow> q | None \<Rightarrow> rawPoint pf env e) = previousPoint pf env s e"
    by (simp add: previousPoint_def)
  have p1: "tested pf lastP cur = map sample [0..<n + 1]"
    by (simp add: tested_def sample_def n_def)
  have p2: "fl pf 0 = 0 \<and> fl pf 1 = 1 \<and> fl pf (fst lastP) = fst lastP \<and> fl pf (snd lastP) = snd lastP \<and>
        fl pf (fst cur) = fst cur \<and> fl pf (snd cur) = snd cur \<longrightarrow>
          sample n = cur \<and> (0 < n \<longrightarrow> sample 0 = lastP)"
    by (simp add: sample_def samplePoint_last samplePoint_first)
  have p3: "hypot (fst cur - fst lastP) (snd cur - snd lastP) \<le> 2 * real n + 5 * eta \<and>
            (\<forall>i \<le> n. 0 < n \<longrightarrow>
               \<bar>fst (sample i) - (fst lastP + real i / real n * (fst cur - fst lastP))\<bar>
                  \<le> 3 * (1 + C) * eta \<and>
               \<bar>snd (sample i) - (snd lastP + real i / real n * (snd cur - snd lastP))\<bar>
                  \<le> 3 * (1 + C) * eta) \<and>
            (\<forall>i < n.
               hypot (fst (sample (Suc i)) - fst (sample i))
                     (snd (sample (Suc i)) - snd (sample i)) \<le> 2 + (17 + 12 * C) * eta)"
    if h: "accurate pf M eta \<and> eta \<le> 1 \<and> 6 * C + 6 \<le> M \<and>
          \<bar>fst lastP\<bar> \<le> C \<and> \<bar>snd lastP\<bar> \<le> C \<and> \<bar>fst cur\<bar> \<le> C \<and> \<bar>snd cur\<bar> \<le> C" for M eta C
  proof -
    from h have acc: "accurate pf M eta" and e1: "eta \<le> 1" and M: "6 * C + 6 \<le> M"
      and l: "\<bar>fst lastP\<bar> \<le> C" "\<bar>snd lastP\<bar> \<le> C" and c: "\<bar>fst cur\<bar> \<le> C" "\<bar>snd cur\<bar> \<le> C"
      by simp_all
    have a: "hypot (fst cur - fst lastP) (snd cur - snd lastP) \<le> 2 * real n + 5 * eta"
      unfolding n_def by (rule stepCount_accuracy[OF acc e1 M l c])
    have b: "\<forall>i \<le> n. 0 < n \<longrightarrow>
               \<bar>fst (sample i) - (fst lastP + real i / real n * (fst cur - fst lastP))\<bar>
                  \<le> 3 * (1 + C) * eta \<and>
               \<bar>snd (sample i) - (snd lastP + real i / real n * (snd cur - snd lastP))\<bar>
                  \<le> 3 * (1 + C) * eta"
      unfolding sample_def using samplePoint_accuracy[OF acc e1 M l c] by blast
    have d: "\<forall>i < n.
               hypot (fst (sample (Suc i)) - fst (sample i))
                     (snd (sample (Suc i)) - snd (sample i)) \<le> 2 + (17 + 12 * C) * eta"
      unfolding sample_def n_def using samplePoint_spacing[OF acc e1 M l c] by blast
    from a b d show ?thesis by (intro conjI)
  qed
  have p4: "capturing pf tbl s \<and> letterConfig tbl s = Some cfg \<longrightarrow>
      (\<exists>s' snap. handle pf tbl s (PointerMove env e) = Inr s' \<and> length snap \<le> 1 \<and>
            inkOf s' = inkOf s @
              stamps pf env (strokes cfg ! activeStrokeIdx s)
                (previousPoint pf env s e) (rawPoint pf env e) @ snap \<and>
            (snap = [] \<longrightarrow> lastPosRef s' = Some (rawPoint pf env e) \<and> capturing pf tbl s' \<and>
               activeStrokeIdx s' = activeStrokeIdx s \<and> letterConfig tbl s' = Some cfg))"
    using move_ink_next[of pf tbl s cfg env e] by blast
  have p5: "isActive s \<and> \<not> successTriggered s \<and> letterConfig tbl s = Some cfg \<and>
    activeStrokeIdx s < length (strokes cfg) \<and> canvasRef s \<noteq> None \<and> inkCanvasRef s \<noteq> None \<and>
    ctx2d pf \<longrightarrow>
      (\<exists>s' snap. handle pf tbl s (PointerDown env e) = Inr s' \<and> length snap \<le> 1 \<and>
            inkOf s' = inkOf s @
              stamps pf env (strokes cfg ! activeStrokeIdx s)
                (rawPoint pf env e) (rawPoint pf env e) @ snap \<and>
            (snap = [] \<longrightarrow> lastPosRef s' = Some (rawPoint pf env e) \<and> capturing pf tbl s' \<and>
               activeStrokeIdx s' = activeStrokeIdx s \<and> letterConfig tbl s' = Some cfg))"
    using down_ink[of s tbl cfg pf env e] by blast
  from p3 have p3': "\<forall>M eta C. accurate pf M eta \<and> eta \<le> 1 \<and> 6 * C + 6 \<le> M \<and>
          \<bar>fst lastP\<bar> \<le> C \<and> \<bar>snd lastP\<bar> \<le> C \<and> \<bar>fst cur\<bar> \<le> C \<and> \<bar>snd cur\<bar> \<le> C \<longrightarrow>
       hypot (fst cur - fst lastP) (snd cur - snd lastP) \<le> 2 * real n + 5 * eta \<and>
            (\<forall>i \<le> n. 0 < n \<longrightarrow>
               \<bar>fst (sample i) - (fst lastP + real i / real n * (fst cur - fst lastP))\<bar>
                  \<le> 3 * (1 + C) * eta \<and>
               \<bar>snd (sample i) - (snd lastP + real i / real n * (snd cur - snd lastP))\<bar>
                  \<le> 3 * (1 + C) * eta) \<and>
            (\<forall>i < n.
               hypot (fst (sample (Suc i)) - fst (sample i))
                     (snd (sample (Suc i)) - snd (sample i)) \<le> 2 + (17 + 12 * C) * eta)"
    by blast
  show ?thesis
    unfolding Let_def n_eq s_eq c_eq p_eq hypot_power2[symmetric] stamps_def[symmetric]
    by (intro conjI) (fact p1, fact p2, fact p3', fact p4, fact p5)
qed

text \<open>Some binary64 values.\<close>

lemma b64_0: "binary64 0 = 0" by (simp add: binary64_def)

lemma b64_1: "binary64 1 = 1"
  by (subst binary64_scaled[where n = 52]) (simp_all add: roundEven_def)

lemma b64_90: "binary64 90 = 90"
  by (subst binary64_scaled[where n = 46]) (simp_all add: roundEven_def)

lemma b64_180: "binary64 180 = 180"
  by (subst binary64_scaled[where n = 45]) (simp_all add: roundEven_def)

lemma b64_96: "binary64 96 = 96"
  by (subst binary64_scaled[where n = 46]) (simp_all add: roundEven_def)

lemma b64_6: "binary64 6 = 6"
  by (subst binary64_scaled[where n = 50]) (simp_all add: roundEven_def)

lemma b64_3: "binary64 3 = 3"
  by (subst binary64_scaled[where n = 51]) (simp_all add: roundEven_def)

lemma double_stepCount: "stepCount doublePlatform (90, 180) (96, 180) = 3"
proof -
  have a: "(96::real) - 90 = 6" "(180::real) - 180 = 0" "(6::real) / 2 = 3" by simp_all
  have h: "hypot 6 0 = 6" unfolding hypot_axis by simp
  have "fl doublePlatform (hypotF doublePlatform (fl doublePlatform (96 - 90))
          (fl doublePlatform (180 - 180)) / 2) = 3"
    by (simp only: fl_double hypotF_double a b64_6 b64_0 h b64_3)
  then show ?thesis by (simp add: stepCount_def)
qed

text \<open>
  On the canvas at (10, 20): a capture at (90, 180) followed by moves to the
  client positions (106, 200) and (110, 200), which are the raw points
  (96, 180) and (100, 180), stamps at 90, 92, 94, 96 and then at 96, 98, 100.
  In binary64 arithmetic the first move has three steps, its end points are
  exact and its first two points are within the bound of each other.
\<close>

theorem interpolation_samples_witness:
  "capturing barPlatform LETTER_PATHS capturingA \<and>
   letterConfig LETTER_PATHS capturingA = Some pathsA \<and>
   lastPosRef capturingA = Some (90, 180) \<and>
   tested barPlatform (90, 180) (96, 180) = [(90, 180), (92, 180), (94, 180), (96, 180)] \<and>
   (\<exists>s' snap. handle barPlatform LETTER_PATHS capturingA (PointerMove env300o (pointerAt 106 200)) = Inr s' \<and>
      length snap \<le> 1 \<and>
      inkOf s' = inkOf capturingA @
        map (\<lambda>q. Stamp q (300 * 0.065))
          (filter (isInside barPlatform env300o (strokes pathsA ! 2))
             (tested barPlatform (90, 180) (106 - 10, 200 - 20))) @ snap) \<and>
   (\<exists>s1 s2. handle barPlatform LETTER_PATHS capturingA (PointerMove env300o (pointerAt 106 200)) = Inr s1 \<and>
      inkOf s1 = [Stamp (90, 180) 19.5, Stamp (92, 180) 19.5, Stamp (94, 180) 19.5,
                  Stamp (96, 180) 19.5] \<and>
      lastPosRef s1 = Some (96, 180) \<and>
      handle barPlatform LETTER_PATHS s1 (PointerMove env300o (pointerAt 110 200)) = Inr s2 \<and>
      inkOf s2 = inkOf s1 @ [Stamp (96, 180) 19.5, Stamp (98, 180) 19.5, Stamp (100, 180) 19.5] \<and>
      lastPosRef s2 = Some (100, 180)) \<and>
   (\<exists>s'. handle barPlatform LETTER_PATHS lastStrokeA (PointerDown env300o (pointerAt 100 200)) = Inr s' \<and>
      inkOf s' = [Stamp (90, 180) 19.5] \<and> lastPosRef s' = Some (90, 180) \<and> isDrawingRef s') \<and>
   accurate doublePlatform 4096 (4096 / 2 ^ 53) \<and>
   stepCount doublePlatform (90, 180) (96, 180) = 3 \<and>
   tested doublePlatform (90, 180) (96, 180) ! 0 = (90, 180) \<and>
   tested doublePlatform (90, 180) (96, 180) ! 3 = (96, 180) \<and>
   sqrt ((fst (tested doublePlatform (90, 180) (96, 180) ! 1) -
          fst (tested doublePlatform (90, 180) (96, 180) ! 0))\<^sup>2 +
         (snd (tested doublePlatform (90, 180) (96, 180) ! 1) -
          snd (tested doublePlatform (90, 180) (96, 180) ! 0))\<^sup>2)
     \<le> 2 + (17 + 12 * 400) * (4096 / 2 ^ 53)"
proof -
  note cf = capturingA_facts(2,3,6)
  have n: "stepCount barPlatform (90, 180) (96, 180) = 3"
    by (simp add: stepCount_def hypot_def barPlatform_def)
  have up: "[0..<3 + 1] = [0, 1, 2, 3]" by (simp add: upt_rec)
  note thb = interpolation_samples[of barPlatform "(96, 180)" "(90, 180)" LETTER_PATHS capturingA
      pathsA "pointerAt 106 200" env300o, unfolded Let_def stepCount_unfolded samplePoint_unfolded]
  have t: "tested barPlatform (90, 180) (96, 180) = [(90, 180), (92, 180), (94, 180), (96, 180)]"
    unfolding thb[THEN conjunct1, THEN conjunct1] n up
    by (simp add: samplePoint_def lerp_def barPlatform_def)
  from thb[THEN conjunct2, THEN conjunct1] cf
  have mv: "\<exists>s' snap. handle barPlatform LETTER_PATHS capturingA (PointerMove env300o (pointerAt 106 200)) = Inr s' \<and>
      length snap \<le> 1 \<and>
      inkOf s' = inkOf capturingA @
        map (\<lambda>q. Stamp q (300 * 0.065))
          (filter (isInside barPlatform env300o (strokes pathsA ! 2))
             (tested barPlatform (90, 180) (106 - 10, 200 - 20))) @ snap"
    unfolding capturingA_facts(4) pointerAt_fields env300o_fields
    by (simp add: barPlatform_def) blast
  have ev: "\<exists>s1 s2. handle barPlatform LETTER_PATHS capturingA (PointerMove env300o (pointerAt 106 200)) = Inr s1 \<and>
      inkOf s1 = [Stamp (90, 180) 19.5, Stamp (92, 180) 19.5, Stamp (94, 180) 19.5,
                  Stamp (96, 180) 19.5] \<and>
      lastPosRef s1 = Some (96, 180) \<and>
      handle barPlatform LETTER_PATHS s1 (PointerMove env300o (pointerAt 110 200)) = Inr s2 \<and>
      inkOf s2 = inkOf s1 @ [Stamp (96, 180) 19.5, Stamp (98, 180) 19.5, Stamp (100, 180) 19.5] \<and>
      lastPosRef s2 = Some (100, 180)"
    by (simp add: evalsBase drawLoop.simps env300o_def)
  have dn: "\<exists>s'. handle barPlatform LETTER_PATHS lastStrokeA (PointerDown env300o (pointerAt 100 200)) = Inr s' \<and>
      inkOf s' = [Stamp (90, 180) 19.5] \<and> lastPosRef s' = Some (90, 180) \<and> isDrawingRef s'"
    by (simp add: evalsBase drawLoop.simps env300o_def)
  have acc: "accurate doublePlatform 4096 (4096 / 2 ^ 53)"
    by (rule accurate_doublePlatform) simp
  note thd = interpolation_samples[of doublePlatform "(96, 180)" "(90, 180)" LETTER_PATHS capturingA
      pathsA "pointerAt 106 200" env300o, unfolded Let_def stepCount_unfolded samplePoint_unfolded
      double_stepCount]
  have fx: "fl doublePlatform 0 = 0" "fl doublePlatform 1 = 1" "fl doublePlatform 90 = 90"
    "fl doublePlatform 180 = 180" "fl doublePlatform 96 = 96"
    by (simp_all only: fl_double b64_0 b64_1 b64_90 b64_180 b64_96)
  have sm: "tested doublePlatform (90, 180) (96, 180) ! i =
      samplePoint doublePlatform (90, 180) (96, 180) 3 i" if "i \<le> 3" for i
    using tested_nth[of i doublePlatform "(90, 180)" "(96, 180)"] that
    unfolding double_stepCount by simp
  from thd[THEN conjunct1, THEN conjunct2, THEN conjunct1] fx
  have ends: "samplePoint doublePlatform (90, 180) (96, 180) 3 3 = (96, 180) \<and>
      samplePoint doublePlatform (90, 180) (96, 180) 3 0 = (90, 180)"
    by simp
  have side: "(4096::real) / 2 ^ 53 \<le> 1" "6 * 400 + 6 \<le> (4096::real)" by simp_all
  from thd[THEN conjunct1, THEN conjunct2, THEN conjunct2, rule_format, of 4096 "4096 / 2 ^ 53" 400]
    acc side
  have "\<forall>i<3. sqrt ((fst (samplePoint doublePlatform (90, 180) (96, 180) 3 (Suc i)) -
          fst (samplePoint doublePlatform (90, 180) (96, 180) 3 i))\<^sup>2 +
         (snd (samplePoint doublePlatform (90, 180) (96, 180) 3 (Suc i)) -
          snd (samplePoint doublePlatform (90, 180) (96, 180) 3 i))\<^sup>2)
     \<le> 2 + (17 + 12 * 400) * (4096 / 2 ^ 53)"
    by simp
  from this[rule_format, of 0]
  have sp: "sqrt ((fst (tested doublePlatform (90, 180) (96, 180) ! 1) -
          fst (tested doublePlatform (90, 180) (96, 180) ! 0))\<^sup>2 +
         (snd (tested doublePlatform (90, 180) (96, 180) ! 1) -
          snd (tested doublePlatform (90, 180) (96, 180) ! 0))\<^sup>2)
     \<le> 2 + (17 + 12 * 400) * (4096 / 2 ^ 53)"
    using sm[of 0] sm[of 1] by simp
  have e0: "tested doublePlatform (90, 180) (96, 180) ! 0 = (90, 180)"
    unfolding sm[of 0, simplified] using ends by simp
  have e3: "tested doublePlatform (90, 180) (96, 180) ! 3 = (96, 180)"
    unfolding sm[of 3, simplified] using ends by simp
  from cf t mv ev dn acc double_stepCount e0 e3 sp show ?thesis by (intro conjI)
qed

section \<open>Completion by reaching the end point\<close>

lemma move_outcome:
  assumes cap: "capturing pf tbl s" and cfg: "letterConfig tbl s = Some cfg"
  shows "\<exists>s'. handle pf tbl s (PointerMove env e) = Inr s' \<and>
     (if distToEnd pf env (strokes cfg ! activeStrokeIdx s) (rawPoint pf env e) < endThreshold pf env
      then \<not> isDrawingRef s' \<and> activeStrokeIdx s' = activeStrokeIdx s + 1
      else isDrawingRef s' \<and> activeStrokeIdx s' = activeStrokeIdx s)"
  using draw_capturing[OF cap cfg, of env e] by (auto split: if_splits)

text \<open>
  C3. On a pointer move during a capture, let \<open>dist\<close> be the distance from the
  raw point \<open>clientX - rect.left\<close>, \<open>clientY - rect.top\<close> to the end point of
  the active stroke taken to CSS pixels, and \<open>limit\<close> the product
  \<open>width * 0.08\<close>, both as the platform computes them. If \<open>dist < limit\<close>, the
  capture stops and the active stroke index grows by one; otherwise the
  capture goes on and the index stays. This holds for every platform, hence
  whatever the hit tests of the move answered and whatever ink there is.

  If the platform's operations are accurate to \<open>eta\<close> on results up to \<open>M\<close>,
  and the raw point and the size of the canvas are at most \<open>C\<close>, with
  \<open>6 * C + 6 \<le> M\<close>, then the stroke completes when the exact distance is below
  0.08 times the width by more than \<open>(8 + 3 * C) * eta\<close>, and does not when it
  is above by more than that. In between, the rounding of the platform decides.
\<close>

theorem end_proximity_completes_stroke:
  "capturing pf tbl s \<and> letterConfig tbl s = Some cfg \<longrightarrow>
     (let stroke = strokes cfg ! activeStrokeIdx s;
          w = rect_width env; h = rect_height env;
          X = clientX e - rect_left env; Y = clientY e - rect_top env;
          endX = fl pf (fl pf (fst (end_pt stroke) / 100) * w);
          endY = fl pf (fl pf (snd (end_pt stroke) / 100) * h);
          dist = hypotF pf (fl pf (fl pf X - endX)) (fl pf (fl pf Y - endY));
          limit = fl pf (w * fl pf 0.08);
          exactDist = sqrt ((X - fst (end_pt stroke) / 100 * w)\<^sup>2 +
                            (Y - snd (end_pt stroke) / 100 * h)\<^sup>2)
      in (\<exists>s'. handle pf tbl s (PointerMove env e) = Inr s' \<and>
            (if dist < limit
             then \<not> isDrawingRef s' \<and> activeStrokeIdx s' = activeStrokeIdx s + 1
             else isDrawingRef s' \<and> activeStrokeIdx s' = activeStrokeIdx s)) \<and>
         (\<forall>M eta C.
            accurate pf M eta \<and> eta \<le> 1 \<and> 6 * C + 6 \<le> M \<and> \<bar>X\<bar> \<le> C \<and> \<bar>Y\<bar> \<le> C \<and>
            0 \<le> w \<and> w \<le> C \<and> 0 \<le> h \<and> h \<le> C \<and>
            0 \<le> fst (end_pt stroke) \<and> fst (end_pt stroke) \<le> 100 \<and>
            0 \<le> snd (end_pt stroke) \<and> snd (end_pt stroke) \<le> 100 \<longrightarrow>
              (exactDist < 0.08 * w - (8 + 3 * C) * eta \<longrightarrow>
                 (\<exists>s'. handle pf tbl s (PointerMove env e) = Inr s' \<and> \<not> isDrawingRef s' \<and>
                    activeStrokeIdx s' = activeStrokeIdx s + 1)) \<and>
              (0.08 * w + (8 + 3 * C) * eta < exactDist \<longrightarrow>
                 (\<exists>s'. handle pf tbl s (PointerMove env e) = Inr s' \<and> isDrawingRef s' \<and>
                    activeStrokeIdx s' = activeStrokeIdx s))))"
proof
  assume "capturing pf tbl s \<and> letterConfig tbl s = Some cfg"
  then have cap: "capturing pf tbl s" and cfg: "letterConfig tbl s = Some cfg" by simp_all
  let ?stroke = "strokes cfg ! activeStrokeIdx s"
  let ?d = "distToEnd pf env ?stroke (rawPoint pf env e)"
  let ?ex = "hypot (clientX e - rect_left env - fst (end_pt ?stroke) / 100 * rect_width env)
                (clientY e - rect_top env - snd (end_pt ?stroke) / 100 * rect_height env)"
  note mo = move_outcome[OF cap cfg, of env e]
  have du: "distToEnd pf env ?stroke (rawPoint pf env e) =
     hypotF pf
       (fl pf (fl pf (clientX e - rect_left env) -
               fl pf (fl pf (fst (end_pt ?stroke) / 100) * rect_width env)))
       (fl pf (fl pf (clientY e - rect_top env) -
               fl pf (fl pf (snd (end_pt ?stroke) / 100) * rect_height env)))"
    by (simp add: distToEnd_def rawPoint_def getPoint_def toPx_def Let_def)
  have p1: "\<exists>s'. handle pf tbl s (PointerMove env e) = Inr s' \<and>
            (if ?d < endThreshold pf env
             then \<not> isDrawingRef s' \<and> activeStrokeIdx s' = activeStrokeIdx s + 1
             else isDrawingRef s' \<and> activeStrokeIdx s' = activeStrokeIdx s)"
    by (rule mo)
  have p2: "(?ex < 0.08 * rect_width env - (8 + 3 * C) * eta \<longrightarrow>
                 (\<exists>s'. handle pf tbl s (PointerMove env e) = Inr s' \<and> \<not> isDrawingRef s' \<and>
                    activeStrokeIdx s' = activeStrokeIdx s + 1)) \<and>
              (0.08 * rect_width env + (8 + 3 * C) * eta < ?ex \<longrightarrow>
                 (\<exists>s'. handle pf tbl s (PointerMove env e) = Inr s' \<and> isDrawingRef s' \<and>
                    activeStrokeIdx s' = activeStrokeIdx s))"
    if h: "accurate pf M eta \<and> eta \<le> 1 \<and> 6 * C + 6 \<le> M \<and>
            \<bar>clientX e - rect_left env\<bar> \<le> C \<and> \<bar>clientY e - rect_top env\<bar> \<le> C \<and>
            0 \<le> rect_width env \<and> rect_width env \<le> C \<and> 0 \<le> rect_height env \<and> rect_height env \<le> C \<and>
            0 \<le> fst (end_pt ?stroke) \<and> fst (end_pt ?stroke) \<le> 100 \<and>
            0 \<le> snd (end_pt ?stroke) \<and> snd (end_pt ?stroke) \<le> 100" for M eta C
  proof -
    from h have a1: "\<bar>?d - ?ex\<bar> \<le> (7 + 2 * C) * eta"
      by (intro distToEnd_accuracy(1)[where M = M]) simp_all
    from h have a2: "\<bar>endThreshold pf env - 0.08 * rect_width env\<bar> \<le> (1 + C) * eta"
      by (intro distToEnd_accuracy(2)[where M = M and e = e and stroke = ?stroke]) simp_all
    have sum: "(7 + 2 * C) * eta + (1 + C) * eta = (8 + 3 * C) * eta" by (simp add: algebra_simps)
    show ?thesis
    proof (intro conjI impI)
      assume "?ex < 0.08 * rect_width env - (8 + 3 * C) * eta"
      with a1 a2 sum have "?d < endThreshold pf env" by linarith
      with mo show "\<exists>s'. handle pf tbl s (PointerMove env e) = Inr s' \<and> \<not> isDrawingRef s' \<and>
                    activeStrokeIdx s' = activeStrokeIdx s + 1" by auto
    next
      assume "0.08 * rect_width env + (8 + 3 * C) * eta < ?ex"
      with a1 a2 sum have "\<not> ?d < endThreshold pf env" by linarith
      with mo show "\<exists>s'. handle pf tbl s (PointerMove env e) = Inr s' \<and> isDrawingRef s' \<and>
                    activeStrokeIdx s' = activeStrokeIdx s" by auto
    qed
  qed
  show "let stroke = strokes cfg ! activeStrokeIdx s;
          w = rect_width env; h = rect_height env;
          X = clientX e - rect_left env; Y = clientY e - rect_top env;
          endX = fl pf (fl pf (fst (end_pt stroke) / 100) * w);
          endY = fl pf (fl pf (snd (end_pt stroke) / 100) * h);
          dist = hypotF pf (fl pf (fl pf X - endX)) (fl pf (fl pf Y - endY));
          limit = fl pf (w * fl pf 0.08);
          exactDist = sqrt ((X - fst (end_pt stroke) / 100 * w)\<^sup>2 +
                            (Y - snd (end_pt stroke) / 100 * h)\<^sup>2)
      in (\<exists>s'. handle pf tbl s (PointerMove env e) = Inr s' \<and>
            (if dist < limit
             then \<not> isDrawingRef s' \<and> activeStrokeIdx s' = activeStrokeIdx s + 1
             else isDrawingRef s' \<and> activeStrokeIdx s' = activeStrokeIdx s)) \<and>
         (\<forall>M eta C.
            accurate pf M eta \<and> eta \<le> 1 \<and> 6 * C + 6 \<le> M \<and> \<bar>X\<bar> \<le> C \<and> \<bar>Y\<bar> \<le> C \<and>
            0 \<le> w \<and> w \<le> C \<and> 0 \<le> h \<and> h \<le> C \<and>
            0 \<le> fst (end_pt stroke) \<and> fst (end_pt stroke) \<le> 100 \<and>
            0 \<le> snd (end_pt stroke) \<and> snd (end_pt stroke) \<le> 100 \<longrightarrow>
              (exactDist < 0.08 * w - (8 + 3 * C) * eta \<longrightarrow>
                 (\<exists>s'. handle pf tbl s (PointerMove env e) = Inr s' \<and> \<not> isDrawingRef s' \<and>
                    activeStrokeIdx s' = activeStrokeIdx s + 1)) \<and>
              (0.08 * w + (8 + 3 * C) * eta < exactDist \<longrightarrow>
                 (\<exists>s'. handle pf tbl s (PointerMove env e) = Inr s' \<and> isDrawingRef s' \<and>
                    activeStrokeIdx s' = activeStrokeIdx s)))"
    unfolding Let_def hypot_power2[symmetric]
    using p1[unfolded du endThreshold_def] p2 by blast
qed

text \<open>The computation of \<open>draw\<close> in binary64 at the raw point (217, 210) on a 350 pixel canvas.\<close>

lemma b64_217: "binary64 (227 - 10) = 217"
  by (subst binary64_scaled[where n = 45]) (simp_all add: roundEven_def)

lemma b64_210: "binary64 (230 - 20) = 210"
  by (subst binary64_scaled[where n = 45]) (simp_all add: roundEven_def)

lemma b64_07: "binary64 (70 / 100) = 6305039478318694 / 2 ^ 53"
  by (subst binary64_scaled[where n = 53]) (simp_all add: roundEven_def)

lemma b64_06: "binary64 (60 / 100) = 5404319552844595 / 2 ^ 53"
  by (subst binary64_scaled[where n = 53]) (simp_all add: roundEven_def)

lemma b64_endX: "binary64 (6305039478318694 / 2 ^ 53 * 350) = 245 - 1 / 2 ^ 45"
  by (subst binary64_scaled[where n = 45]) (simp_all add: roundEven_def)

lemma b64_endY: "binary64 (5404319552844595 / 2 ^ 53 * 350) = 210"
  by (subst binary64_scaled[where n = 45]) (simp_all add: roundEven_def)

lemma b64_dx: "binary64 (217 - (245 - 1 / 2 ^ 45)) = - (28 - 1 / 2 ^ 45)"
  by (subst binary64_scaled[where n = 48]) (simp_all add: roundEven_def)

lemma b64_dy: "binary64 (210 - 210) = 0"
  by (simp add: binary64_def)

lemma b64_d: "binary64 (hypot (- (28 - 1 / 2 ^ 45)) 0) = 28 - 1 / 2 ^ 45"
proof -
  have h: "hypot (- (28 - 1 / 2 ^ 45)) 0 = 28 - 1 / 2 ^ 45" unfolding hypot_axis by simp
  show ?thesis unfolding h
    by (subst binary64_scaled[where n = 48]) (simp_all add: roundEven_def)
qed

lemma b64_008: "binary64 0.08 = 5764607523034235 / 2 ^ 56"
  by (subst binary64_scaled[where n = 56]) (simp_all add: roundEven_def)

lemma b64_limit: "binary64 (350 * (5764607523034235 / 2 ^ 56)) = 28"
  by (subst binary64_scaled[where n = 48]) (simp_all add: roundEven_def)

lemma double_dist_at_boundary:
  "hypotF doublePlatform
     (fl doublePlatform (fl doublePlatform (227 - 10) -
        fl doublePlatform (fl doublePlatform (70 / 100) * 350)))
     (fl doublePlatform (fl doublePlatform (230 - 20) -
        fl doublePlatform (fl doublePlatform (60 / 100) * 350))) = 28 - 1 / 2 ^ 45"
  by (simp only: fl_double hypotF_double b64_217 b64_210 b64_07 b64_06 b64_endX b64_endY
      b64_dx b64_dy b64_d)

lemma double_limit: "fl doublePlatform (350 * fl doublePlatform 0.08) = 28"
  by (simp only: fl_double b64_008 b64_limit)

text \<open>
  On the 350 pixel canvas at (10, 20), with the end point of the third stroke of
  the letter A at (245, 210): at the client position (227, 230) the exact
  distance is 28, which is 0.08 times the width, yet binary64 computes a
  distance below its limit 28 and the stroke completes. At (255, 256) the exact
  distance is 26 and the stroke completes; at (255, 200) it is 30 and the stroke
  does not complete. On the 300 pixel canvas at (10, 20) in exact arithmetic, the
  end point is (210, 180) and the limit 24: at the client position (240, 200)
  the distance is 20 and the stroke completes, at (194, 200) it is 26 and the
  stroke does not complete.
\<close>

theorem end_proximity_completes_stroke_witness:
  "capturing doublePlatform LETTER_PATHS capturingA \<and>
   letterConfig LETTER_PATHS capturingA = Some pathsA \<and>
   activeStrokeIdx capturingA = 2 \<and>
   sqrt ((227 - 10 - 70 / 100 * 350)\<^sup>2 + (230 - 20 - 60 / 100 * 350)\<^sup>2) = 0.08 * 350 \<and>
   hypotF doublePlatform
     (fl doublePlatform (fl doublePlatform (227 - 10) -
        fl doublePlatform (fl doublePlatform (70 / 100) * 350)))
     (fl doublePlatform (fl doublePlatform (230 - 20) -
        fl doublePlatform (fl doublePlatform (60 / 100) * 350)))
     < fl doublePlatform (350 * fl doublePlatform 0.08) \<and>
   (\<exists>s'. handle doublePlatform LETTER_PATHS capturingA (PointerMove env350 (pointerAt 227 230)) = Inr s' \<and>
      \<not> isDrawingRef s' \<and> activeStrokeIdx s' = 3) \<and>
   accurate doublePlatform 4096 (4096 / 2 ^ 53) \<and>
   sqrt ((255 - 10 - 70 / 100 * 350)\<^sup>2 + (256 - 20 - 60 / 100 * 350)\<^sup>2) = 26 \<and>
   (\<exists>s'. handle doublePlatform LETTER_PATHS capturingA (PointerMove env350 (pointerAt 255 256)) = Inr s' \<and>
      \<not> isDrawingRef s' \<and> activeStrokeIdx s' = 3) \<and>
   sqrt ((255 - 10 - 70 / 100 * 350)\<^sup>2 + (200 - 20 - 60 / 100 * 350)\<^sup>2) = 30 \<and>
   (\<exists>s'. handle doublePlatform LETTER_PATHS capturingA (PointerMove env350 (pointerAt 255 200)) = Inr s' \<and>
      isDrawingRef s' \<and> activeStrokeIdx s' = 2) \<and>
   (\<exists>s'. handle barPlatform LETTER_PATHS capturingA (PointerMove env300o (pointerAt 240 200)) = Inr s' \<and>
      \<not> isDrawingRef s' \<and> activeStrokeIdx s' = 3) \<and>
   (\<exists>s'. handle barPlatform LETTER_PATHS capturingA (PointerMove env300o (pointerAt 194 200)) = Inr s' \<and>
      isDrawingRef s' \<and> activeStrokeIdx s' = 2)"
proof -
  note cf = capturingA_facts(1,3)
  have x1: "\<exists>s'. handle barPlatform LETTER_PATHS capturingA (PointerMove env300o (pointerAt 240 200)) = Inr s' \<and>
      \<not> isDrawingRef s' \<and> activeStrokeIdx s' = 3"
    by (simp add: evals env300o_def)
  have x2: "\<exists>s'. handle barPlatform LETTER_PATHS capturingA (PointerMove env300o (pointerAt 194 200)) = Inr s' \<and>
      isDrawingRef s' \<and> activeStrokeIdx s' = 2"
    by (simp add: evals env300o_def)
  have lt: "hypotF doublePlatform
     (fl doublePlatform (fl doublePlatform (227 - 10) -
        fl doublePlatform (fl doublePlatform (70 / 100) * 350)))
     (fl doublePlatform (fl doublePlatform (230 - 20) -
        fl doublePlatform (fl doublePlatform (60 / 100) * 350)))
     < fl doublePlatform (350 * fl doublePlatform 0.08)"
    unfolding double_dist_at_boundary double_limit by simp
  have e0: "sqrt ((227 - 10 - 70 / 100 * 350)\<^sup>2 + (230 - 20 - 60 / 100 * 350)\<^sup>2) = 0.08 * (350::real)"
    by simp
  have e1: "sqrt ((255 - 10 - 70 / 100 * 350)\<^sup>2 + (256 - 20 - 60 / 100 * 350)\<^sup>2) = (26::real)"
    by simp
  have e2: "sqrt ((255 - 10 - 70 / 100 * 350)\<^sup>2 + (200 - 20 - 60 / 100 * 350)\<^sup>2) = (30::real)"
    by simp
  have acc: "accurate doublePlatform 4096 (4096 / 2 ^ 53)"
    by (rule accurate_doublePlatform) simp
  note th = end_proximity_completes_stroke[of doublePlatform LETTER_PATHS capturingA pathsA env350,
      unfolded Let_def capturingA_facts(4,5) env350_fields pointerAt_fields fst_conv snd_conv]
  from th[of "pointerAt 227 230"] cf lt
  have p1: "\<exists>s'. handle doublePlatform LETTER_PATHS capturingA (PointerMove env350 (pointerAt 227 230)) = Inr s' \<and>
      \<not> isDrawingRef s' \<and> activeStrokeIdx s' = 3"
    unfolding pointerAt_fields by auto
  have side: "(4096::real) / 2 ^ 53 \<le> 1" "6 * 400 + 6 \<le> (4096::real)" by simp_all
  from th[of "pointerAt 255 256"] cf
  have "\<forall>M eta C.
            accurate doublePlatform M eta \<and> eta \<le> 1 \<and> 6 * C + 6 \<le> M \<and> \<bar>255 - 10\<bar> \<le> C \<and> \<bar>256 - 20\<bar> \<le> C \<and>
            0 \<le> (350::real) \<and> 350 \<le> C \<and> 0 \<le> (350::real) \<and> 350 \<le> C \<and>
            0 \<le> (70::real) \<and> (70::real) \<le> 100 \<and> 0 \<le> (60::real) \<and> (60::real) \<le> 100 \<longrightarrow>
              (sqrt ((255 - 10 - 70 / 100 * 350)\<^sup>2 + (256 - 20 - 60 / 100 * 350)\<^sup>2)
                  < 0.08 * 350 - (8 + 3 * C) * eta \<longrightarrow>
                 (\<exists>s'. handle doublePlatform LETTER_PATHS capturingA (PointerMove env350 (pointerAt 255 256)) = Inr s' \<and>
                    \<not> isDrawingRef s' \<and> activeStrokeIdx s' = 2 + 1))"
    unfolding pointerAt_fields by blast
  from this[rule_format, of 4096 "4096 / 2 ^ 53" 400] acc
  have p2: "\<exists>s'. handle doublePlatform LETTER_PATHS capturingA (PointerMove env350 (pointerAt 255 256)) = Inr s' \<and>
      \<not> isDrawingRef s' \<and> activeStrokeIdx s' = 3"
    unfolding e1 by simp
  from th[of "pointerAt 255 200"] cf
  have "\<forall>M eta C.
            accurate doublePlatform M eta \<and> eta \<le> 1 \<and> 6 * C + 6 \<le> M \<and> \<bar>255 - 10\<bar> \<le> C \<and> \<bar>200 - 20\<bar> \<le> C \<and>
            0 \<le> (350::real) \<and> 350 \<le> C \<and> 0 \<le> (350::real) \<and> 350 \<le> C \<and>
            0 \<le> (70::real) \<and> (70::real) \<le> 100 \<and> 0 \<le> (60::real) \<and> (60::real) \<le> 100 \<longrightarrow>
              (0.08 * 350 + (8 + 3 * C) * eta
                 < sqrt ((255 - 10 - 70 / 100 * 350)\<^sup>2 + (200 - 20 - 60 / 100 * 350)\<^sup>2) \<longrightarrow>
                 (\<exists>s'. handle doublePlatform LETTER_PATHS capturingA (PointerMove env350 (pointerAt 255 200)) = Inr s' \<and>
                    isDrawingRef s' \<and> activeStrokeIdx s' = 2))"
    unfolding pointerAt_fields by blast
  from this[rule_format, of 4096 "4096 / 2 ^ 53" 400] acc
  have p3: "\<exists>s'. handle doublePlatform LETTER_PATHS capturingA (PointerMove env350 (pointerAt 255 200)) = Inr s' \<and>
      isDrawingRef s' \<and> activeStrokeIdx s' = 2"
    unfolding e2 by simp
  from cf capturingA_facts(4) e0 lt p1 acc e1 p2 e2 p3 x1 x2 show ?thesis by (intro conjI)
qed

end
